theory Spec2Isabelle
  imports Main "HOL-Library.Word"
begin

section \<open>Machine integers of the sketch\<close>

text \<open>
  The sketches run on an AVR Arduino: \<open>unsigned long\<close> and \<open>long\<close> are 32 bits wide,
  \<open>int\<close> and \<open>unsigned int\<close> are 16 bits wide. A \<open>long\<close> is kept as its 32-bit pattern
  and read with \<open>sint\<close> wherever the code compares it as a signed number; the conversion
  \<open>long\<close> to \<open>unsigned long\<close> then is the identity on the pattern, as in C.
\<close>

type_synonym ulong = "32 word"
type_synonym long = "32 word"
type_synonym c_int = "16 word"
type_synonym c_uint = "16 word"

section \<open>The timed-state engine (TimedState::run)\<close>

text \<open>
  The fields of class \<open>TimedState\<close> that \<open>TimedState::run\<close> and the state classes of
  States.cpp use. A subclass is a record extension, so that an object of a subclass can be
  passed where the engine expects a \<open>TimedState\<close>.
\<close>

record TimedState =
  time_of_last_call :: ulong
  timer :: ulong
  duration :: ulong
  flag_stop :: bool

text \<open>
  A virtual hook (\<open>s_setup\<close>, \<open>loop\<close>, \<open>s_finish\<close>) may read and write the fields of its
  own object and the globals of the sketch: it is a function on the pair of both.
\<close>

type_synonym ('s, 'g) hook = "'s \<times> 'g \<Rightarrow> 's \<times> 'g"

record ('s, 'g) hooks =
  s_setup :: "('s, 'g) hook"
  loop :: "('s, 'g) hook"
  s_finish :: "('s, 'g) hook"

text \<open>
  \<open>void TimedState::run(unsigned long time)\<close>, statement by statement. The comparison
  \<open>time >= timer\<close> and the sum \<open>time + duration\<close> are those of \<open>unsigned long\<close>:
  the sum wraps around at \<open>2^32\<close>.
\<close>

definition run ::
  "('a TimedState_scheme, 'g) hooks \<Rightarrow> ulong \<Rightarrow>
   'a TimedState_scheme \<times> 'g \<Rightarrow> 'a TimedState_scheme \<times> 'g" where
  "run h time s0 =
    (let s1 = ((fst s0)\<lparr>time_of_last_call := time\<rparr>, snd s0);
         s2 = (if timer (fst s1) = 0
               then (let a = s_setup h s1;
                         b = ((fst a)\<lparr>flag_stop := False\<rparr>, snd a)
                     in ((fst b)\<lparr>timer := time + duration (fst b)\<rparr>, snd b))
               else s1)
     in if flag_stop (fst s2) \<or> timer (fst s2) \<le> time
        then (let c = s_finish h s2 in ((fst c)\<lparr>timer := 0\<rparr>, snd c))
        else loop h s2)"

text \<open>Successive calls of \<open>run\<close> on the same object, one per scheduler pass.\<close>

fun runs ::
  "('a TimedState_scheme, 'g) hooks \<Rightarrow> ulong list \<Rightarrow>
   'a TimedState_scheme \<times> 'g \<Rightarrow> 'a TimedState_scheme \<times> 'g" where
  "runs h [] s = s"
| "runs h (t # ts) s = runs h ts (run h t s)"

text \<open>
  The hooks of the base class: by the comment on the subclasses in States.cpp they
  "mostly just do nothing by default".
\<close>

definition TimedState_hooks :: "('a TimedState_scheme, 'g) hooks" where
  "TimedState_hooks = \<lparr>s_setup = (\<lambda>s. s), loop = (\<lambda>s. s), s_finish = (\<lambda>s. s)\<rparr>"

subsection \<open>Observing which hook a call invokes\<close>

text \<open>
  To speak about the order in which the hooks are invoked, each hook is wrapped so that it
  appends its name to a log kept beside the globals. The wrapped hooks are run by the same
  \<open>run\<close>; the hook itself sees and changes exactly what it does without the log.
\<close>

datatype event = Setup | Loop | Finish

definition logged :: "event \<Rightarrow> ('s, 'g) hook \<Rightarrow> ('s, 'g \<times> event list) hook" where
  "logged e f = (\<lambda>s. let r = f (fst s, fst (snd s)) in (fst r, (snd r, snd (snd s) @ [e])))"

definition traced :: "('s, 'g) hooks \<Rightarrow> ('s, 'g \<times> event list) hooks" where
  "traced h = \<lparr>s_setup = logged Setup (s_setup h), loop = logged Loop (loop h),
               s_finish = logged Finish (s_finish h)\<rparr>"

definition trace :: "'s \<times> 'g \<times> event list \<Rightarrow> event list" where
  "trace s = snd (snd s)"

definition forget :: "'s \<times> 'g \<times> event list \<Rightarrow> 's \<times> 'g" where
  "forget s = (fst s, fst (snd s))"

text \<open>
  An activation: a non-empty sequence of calls of \<open>run\<close>, the first one made with the
  sentinel inactive (\<open>timer = 0\<close>, required where the predicate is used), such that the
  sentinel is reset by the last call and by no call before it.
\<close>

fun is_activation ::
  "('a TimedState_scheme, 'g) hooks \<Rightarrow> ulong list \<Rightarrow> 'a TimedState_scheme \<times> 'g \<Rightarrow> bool" where
  "is_activation h [] s = False"
| "is_activation h [t] s = (timer (fst (run h t s)) = 0)"
| "is_activation h (t # t' # ts) s =
     (timer (fst (run h t s)) \<noteq> 0 \<and> is_activation h (t' # ts) (run h t s))"

text \<open>The hook \<open>loop\<close> does not write the field \<open>timer\<close> of its object.\<close>

definition loop_keeps_timer :: "('a TimedState_scheme, 'g) hooks \<Rightarrow> bool" where
  "loop_keeps_timer h = (\<forall>s. timer (fst (loop h s)) = timer (fst s))"


text \<open>
  The two halves of \<open>run\<close>, named for the proofs: \<open>arm\<close> is the object after the first
  \<open>if\<close> (the "boiler plate timer code"), \<open>fires\<close> is the condition of the second.
\<close>

definition arm ::
  "('a TimedState_scheme, 'g) hooks \<Rightarrow> ulong \<Rightarrow>
   'a TimedState_scheme \<times> 'g \<Rightarrow> 'a TimedState_scheme \<times> 'g" where
  "arm h time s0 =
    (let s1 = ((fst s0)\<lparr>time_of_last_call := time\<rparr>, snd s0)
     in if timer (fst s1) = 0
        then (let a = s_setup h s1;
                  b = ((fst a)\<lparr>flag_stop := False\<rparr>, snd a)
              in ((fst b)\<lparr>timer := time + duration (fst b)\<rparr>, snd b))
        else s1)"

definition fires ::
  "('a TimedState_scheme, 'g) hooks \<Rightarrow> ulong \<Rightarrow> 'a TimedState_scheme \<times> 'g \<Rightarrow> bool" where
  "fires h time s0 =
     (flag_stop (fst (arm h time s0)) \<or> timer (fst (arm h time s0)) \<le> time)"

section \<open>The MultiSens protocol (States.cpp)\<close>

subsection \<open>Declarations that States.cpp takes from headers\<close>

text \<open>
  The states of the protocol, as the sketch lists them ("The protocol consists of 8
  states") and as the \<open>switch\<close> of \<open>loop\<close> uses them.
\<close>

datatype STATE_TYPE =
  WAIT_TO_START_TRIAL | TRIAL_START | STIM_PERIOD | RESPONSE_WINDOW
  | REWARD | POST_REWARD_PAUSE | ERROR | INTER_TRIAL_INTERVAL

text \<open>
  The header of MultiSens that defines the macros \<open>GO\<close>, \<open>NOGO\<close>, \<open>OUTCOME_*\<close> and the
  header of the chat library that defines \<open>__TRIAL_SPEAK_NO\<close> are not part of the sources:
  their values are parameters of everything below. Each is an \<open>int\<close> constant that the
  code compares with, or stores into, a \<open>long\<close>; the field holds the value after that
  conversion.
\<close>

record macros =
  GO :: long
  NOGO :: long
  OUTCOME_HIT :: long
  OUTCOME_FA :: long
  OUTCOME_CR :: long
  OUTCOME_MISS :: long
  TRIAL_SPEAK_NO :: long

text \<open>
  Modelled from the spec: the \<open>tpidx_\<close> macros of MultiSens are not part of the sources.
  The spec names the parameter behind each of them (STIMDUR for the stimulus period, RWIN
  for the response window, the timeout, the inter-reward and inter-trial intervals, MRT,
  TOE, REW and REW_DUR); each macro is the position of that abbreviation in
  \<open>param_abbrevs\<close>.
\<close>

definition tpidx_STPRIDX :: nat where "tpidx_STPRIDX = 0"
definition tpidx_SPKRIDX :: nat where "tpidx_SPKRIDX = 1"
definition tpidx_STIM_DUR :: nat where "tpidx_STIM_DUR = 2"
definition tpidx_REW :: nat where "tpidx_REW = 3"
definition tpidx_REW_DUR :: nat where "tpidx_REW_DUR = 4"
definition tpidx_INTER_REWARD_INTERVAL :: nat where "tpidx_INTER_REWARD_INTERVAL = 5"
definition tpidx_ERROR_TIMEOUT :: nat where "tpidx_ERROR_TIMEOUT = 6"
definition tpidx_ITI :: nat where "tpidx_ITI = 7"
definition tpidx_RESP_WIN_DUR :: nat where "tpidx_RESP_WIN_DUR = 8"
definition tpidx_MRT :: nat where "tpidx_MRT = 9"
definition tpidx_TERMINATE_ON_ERR :: nat where "tpidx_TERMINATE_ON_ERR = 10"

text \<open>
  The result indices, as the States.h among the sources defines them
  (\<open>N_TRIAL_RESULTS 2\<close>, \<open>tridx_RESPONSE 0\<close>, \<open>tridx_OUTCOME 1\<close>); they agree with the two
  entries of \<open>results_abbrevs\<close> in States.cpp.
\<close>

definition N_TRIAL_RESULTS :: nat where "N_TRIAL_RESULTS = 2"
definition tridx_RESPONSE :: nat where "tridx_RESPONSE = 0"
definition tridx_OUTCOME :: nat where "tridx_OUTCOME = 1"

subsection \<open>The tables of States.cpp\<close>

definition param_abbrevs :: "string list" where
  "param_abbrevs =
     [''STPRIDX'', ''SPKRIDX'', ''STIMDUR'', ''REW'', ''REW_DUR'',
      ''IRI'', ''TO'', ''ITI'', ''RWIN'', ''MRT'',
      ''TOE'']"

text \<open>
  \<open>N_TRIAL_PARAMS\<close> is defined in the header of MultiSens, which is not part of the
  sources; the three parameter tables of States.cpp have eleven entries each.
\<close>

definition N_TRIAL_PARAMS :: nat where
  "N_TRIAL_PARAMS = 11"

definition initial_param_values :: "long list" where
  "initial_param_values =
     [0, 0, 2000, 0, 50,
      500, 6000, 3000, 45000, 1,
      1]"

definition param_report_ET :: "bool list" where
  "param_report_ET =
     [True, True, True, True, False,
      False, False, False, False, False,
      False]"

definition results_abbrevs :: "string list" where
  "results_abbrevs = [''RESP'', ''OUTC'']"

definition lickThresh :: int where
  "lickThresh = 900"

text \<open>
  \<open>NUM_DEVICES\<close> comes from config.h, which is not part of the sources; \<open>devIndices\<close>
  has two entries.
\<close>

definition NUM_DEVICES :: nat where
  "NUM_DEVICES = 2"

definition devIndices :: "nat list" where
  "devIndices = [tpidx_STPRIDX, tpidx_SPKRIDX]"

subsection \<open>What one pass of the main loop reads from outside\<close>

text \<open>
  Modelled from the spec: the chat library (\<open>communications\<close>) is not part of the sources.
  By the spec the command channel delivers, once per tick, either nothing, the release
  of the trial, or a parsed triple (command, argument 1, argument 2).
\<close>

datatype chat = NoChat | RELEASE_TRL | Cmd string string string

text \<open>
  Every value the code obtains from the hardware during one pass is an input of the pass,
  one field per call site: \<open>millis()\<close> at the top of \<open>loop\<close>, in \<open>StimPeriod::loop\<close> and
  in the state-change report; \<open>analogRead(LICK_DETECTOR_PIN)\<close> in the \<open>checkLicks\<close> of
  \<open>loop\<close>, in the one of \<open>update\<close> and in \<open>set_licking_variables\<close>; \<open>random(0, 10000)\<close>.
\<close>

record input =
  millis_loop :: ulong
  chat_in :: chat
  aIn_poll :: int
  aIn_update :: int
  aIn_slv :: int
  millis_stim :: ulong
  millis_chg :: ulong
  random_in :: int

text \<open>
  What the code sends out: the lines printed on the serial port, as tagged tuples (their
  text layout is not modelled), and the calls made to the device objects.
\<close>

datatype msg =
  M_TRL_RELEASED ulong
  | M_TRL_START ulong
  | M_TRLP ulong string long
  | M_TRLR ulong string long
  | M_EV_R_L ulong
  | M_LCK ulong
  | M_ST_CHG ulong STATE_TYPE STATE_TYPE
  | M_ST_CHG2 ulong STATE_TYPE STATE_TYPE
  | M_ERR_param_not_found string
  | M_ERR_cant_set_var
  | M_ERR_SIC string

datatype dev_call = Dev_loop nat long | Dev_s_finish nat

text \<open>The global variables of States.cpp and of the sketch.\<close>

record globals =
  param_values :: "long list"
  results_values :: "long list"
  default_results_values :: "long list"
  next_state :: STATE_TYPE
  flag_start_trial :: bool
  sticky_licking :: bool
  solenoid_pin :: "bool list"
  dev_calls :: "dev_call list"
  serial :: "msg list"
  inp :: input


subsection \<open>The state objects\<close>

text \<open>
  The classes derived from \<open>TimedState\<close>, with the members their functions in States.cpp
  use. \<open>my_rewards_this_trial\<close> is an \<open>unsigned int\<close>, as the States.h among the
  sources declares it. \<open>StateFakeResponseWindow\<close> has the members of
  \<open>StateResponseWindow\<close> and overrides \<open>set_licking_variables\<close> only;
  \<open>StateInterTrialInterval\<close>, \<open>StateErrorTimeout\<close> and \<open>StatePostRewardPause\<close> add no
  member.
\<close>

record StimPeriod = TimedState +
  licked :: int
  devFcns :: "long list"

record StateResponseWindow = TimedState +
  my_licking :: bool
  my_rewards_this_trial :: c_uint

subsection \<open>Utility functions\<close>

text \<open>\<open>boolean checkLicks()\<close>, on the value that \<open>analogRead\<close> returns.\<close>

definition checkLicks :: "int \<Rightarrow> bool" where
  "checkLicks aIn = (if aIn > lickThresh then True else False)"

subsection \<open>StimPeriod\<close>

definition StimPeriod_s_setup :: "('a StimPeriod_scheme, globals) hook" where
  "StimPeriod_s_setup s =
    (let obj = fst s; g = snd s;
         obj1 = obj\<lparr>duration := param_values g ! tpidx_REW_DUR\<rparr>;
         obj2 = obj1\<lparr>licked := 0\<rparr>;
         obj3 = fold (\<lambda>i ob. ob\<lparr>devFcns := (devFcns ob)[i := param_values g ! (devIndices ! i)]\<rparr>)
                  [0..<NUM_DEVICES] obj2
     in (obj3, g))"

definition StimPeriod_loop :: "('a StimPeriod_scheme, globals) hook" where
  "StimPeriod_loop s =
    (let obj = fst s; g = snd s;
         time = millis_stim (inp g);
         g1 = fold (\<lambda>i gl. gl\<lparr>dev_calls := dev_calls gl @ [Dev_loop i (devFcns obj ! i)]\<rparr>)
                [0..<NUM_DEVICES] g
     in if param_values g1 ! tpidx_REW = 1 \<and> timer obj - time < param_values g1 ! tpidx_REW_DUR
        then (obj, g1\<lparr>solenoid_pin := solenoid_pin g1 @ [True]\<rparr>)
        else (obj, g1))"

definition StimPeriod_s_finish :: "('a StimPeriod_scheme, globals) hook" where
  "StimPeriod_s_finish s =
    (let obj = fst s; g = snd s;
         g1 = fold (\<lambda>i gl. gl\<lparr>dev_calls := dev_calls gl @ [Dev_s_finish i]\<rparr>)
                [0..<NUM_DEVICES] g;
         g2 = g1\<lparr>solenoid_pin := solenoid_pin g1 @ [False]\<rparr>
     in if licked obj = 1
        then (obj, g2\<lparr>next_state := ERROR\<rparr>)
        else (obj, g2\<lparr>next_state := RESPONSE_WINDOW\<rparr>))"

definition StimPeriod_hooks :: "('a StimPeriod_scheme, globals) hooks" where
  "StimPeriod_hooks =
     \<lparr>s_setup = StimPeriod_s_setup, loop = StimPeriod_loop, s_finish = StimPeriod_s_finish\<rparr>"

subsection \<open>StateResponseWindow and StateFakeResponseWindow\<close>

definition StateResponseWindow_update ::
  "'a StateResponseWindow_scheme \<times> globals \<Rightarrow> 'a StateResponseWindow_scheme \<times> globals" where
  "StateResponseWindow_update s =
     ((fst s)\<lparr>my_licking := checkLicks (aIn_update (inp (snd s)))\<rparr>, snd s)"

definition StateResponseWindow_s_setup :: "('a StateResponseWindow_scheme, globals) hook" where
  "StateResponseWindow_s_setup s =
     ((fst s)\<lparr>duration := param_values (snd s) ! tpidx_RESP_WIN_DUR\<rparr>, snd s)"

text \<open>
  \<open>set_licking_variables(bool &licking)\<close> of the two classes: the value assigned to
  \<open>licking\<close>.
\<close>

definition StateResponseWindow_set_licking_variables :: "globals \<Rightarrow> bool" where
  "StateResponseWindow_set_licking_variables g =
     (if aIn_slv (inp g) > lickThresh then True else False)"

definition StateFakeResponseWindow_set_licking_variables :: "globals \<Rightarrow> bool" where
  "StateFakeResponseWindow_set_licking_variables g = (random_in (inp g) < 3)"

text \<open>
  \<open>StateResponseWindow::loop\<close>. The virtual \<open>set_licking_variables\<close> is the parameter
  \<open>slv\<close>. In \<open>my_rewards_this_trial >= param_values[tpidx_MRT]\<close> the \<open>unsigned int\<close> is
  converted to \<open>long\<close> and the comparison is signed. The branch that prints
  "ERR this should never happen" cannot be reached and is left out.
\<close>

definition StateResponseWindow_loop ::
  "macros \<Rightarrow> (globals \<Rightarrow> bool) \<Rightarrow> ('a StateResponseWindow_scheme, globals) hook" where
  "StateResponseWindow_loop K slv s =
    (let obj = fst s; g = snd s;
         licking = slv g
     in if sint (param_values g ! tpidx_MRT) \<le> uint (my_rewards_this_trial obj)
        then (obj\<lparr>flag_stop := True\<rparr>, g\<lparr>next_state := INTER_TRIAL_INTERVAL\<rparr>)
        else if \<not> licking then (obj, g)
        else
          (let current_response = GO K;
               g1 = (if results_values g ! tridx_RESPONSE = 0
                     then g\<lparr>results_values := (results_values g)[tridx_RESPONSE := current_response]\<rparr>
                     else g)
           in if current_response = GO K \<and> param_values g1 ! tpidx_REW = GO K
              then (obj\<lparr>my_rewards_this_trial := my_rewards_this_trial obj + 1\<rparr>,
                    g1\<lparr>next_state := REWARD,
                       results_values := (results_values g1)[tridx_OUTCOME := OUTCOME_HIT K]\<rparr>)
              else if param_values g1 ! tpidx_TERMINATE_ON_ERR = TRIAL_SPEAK_NO K
              then (obj, g1)
              else (obj, g1\<lparr>results_values := (results_values g1)[tridx_OUTCOME := OUTCOME_FA K],
                           next_state := ERROR\<rparr>)))"

text \<open>
  \<open>StateResponseWindow::s_finish\<close>. The assignment to \<open>next_state\<close> stands after the
  comment "In any case the trial is over", but before the brace that closes the outer
  \<open>if\<close>: it is part of the branch taken when the response is still unset.
\<close>

definition StateResponseWindow_s_finish ::
  "macros \<Rightarrow> ('a StateResponseWindow_scheme, globals) hook" where
  "StateResponseWindow_s_finish K s =
    (let obj = fst s; g = snd s
     in if results_values g ! tridx_RESPONSE = 0
        then
          (let g1 = g\<lparr>results_values := (results_values g)[tridx_RESPONSE := NOGO K]\<rparr>;
               g2 = (if param_values g1 ! tpidx_REW = NOGO K
                     then g1\<lparr>results_values := (results_values g1)[tridx_OUTCOME := OUTCOME_CR K]\<rparr>
                     else g1\<lparr>results_values := (results_values g1)[tridx_OUTCOME := OUTCOME_MISS K]\<rparr>)
           in (obj, g2\<lparr>next_state := INTER_TRIAL_INTERVAL\<rparr>))
        else (obj, g))"

definition StateResponseWindow_hooks ::
  "macros \<Rightarrow> ('a StateResponseWindow_scheme, globals) hooks" where
  "StateResponseWindow_hooks K =
     \<lparr>s_setup = StateResponseWindow_s_setup,
      loop = StateResponseWindow_loop K StateResponseWindow_set_licking_variables,
      s_finish = StateResponseWindow_s_finish K\<rparr>"

definition StateFakeResponseWindow_hooks ::
  "macros \<Rightarrow> ('a StateResponseWindow_scheme, globals) hooks" where
  "StateFakeResponseWindow_hooks K =
     \<lparr>s_setup = StateResponseWindow_s_setup,
      loop = StateResponseWindow_loop K StateFakeResponseWindow_set_licking_variables,
      s_finish = StateResponseWindow_s_finish K\<rparr>"

subsection \<open>StateInterTrialInterval, StatePostRewardPause, StateErrorTimeout\<close>

definition StateInterTrialInterval_s_setup :: "('a TimedState_scheme, globals) hook" where
  "StateInterTrialInterval_s_setup s =
    (let obj = (fst s)\<lparr>duration := param_values (snd s) ! tpidx_ITI\<rparr>;
         g = fold (\<lambda>i gl. gl\<lparr>serial := serial gl @
                      [M_TRLR (time_of_last_call obj) (results_abbrevs ! i) (results_values gl ! i)]\<rparr>)
               [0..<N_TRIAL_RESULTS] (snd s)
     in (obj, g))"

definition StateInterTrialInterval_s_finish :: "('a TimedState_scheme, globals) hook" where
  "StateInterTrialInterval_s_finish s = (fst s, (snd s)\<lparr>next_state := WAIT_TO_START_TRIAL\<rparr>)"

definition StateInterTrialInterval_hooks :: "('a TimedState_scheme, globals) hooks" where
  "StateInterTrialInterval_hooks =
     \<lparr>s_setup = StateInterTrialInterval_s_setup, loop = (\<lambda>s. s),
      s_finish = StateInterTrialInterval_s_finish\<rparr>"

definition StatePostRewardPause_s_finish :: "('a TimedState_scheme, globals) hook" where
  "StatePostRewardPause_s_finish s = (fst s, (snd s)\<lparr>next_state := RESPONSE_WINDOW\<rparr>)"

definition StatePostRewardPause_hooks :: "('a TimedState_scheme, globals) hooks" where
  "StatePostRewardPause_hooks =
     \<lparr>s_setup = (\<lambda>s. s), loop = (\<lambda>s. s), s_finish = StatePostRewardPause_s_finish\<rparr>"

definition StateErrorTimeout_s_finish :: "('a TimedState_scheme, globals) hook" where
  "StateErrorTimeout_s_finish s = (fst s, (snd s)\<lparr>next_state := INTER_TRIAL_INTERVAL\<rparr>)"

definition StateErrorTimeout_s_setup :: "('a TimedState_scheme, globals) hook" where
  "StateErrorTimeout_s_setup s =
     ((fst s)\<lparr>duration := param_values (snd s) ! tpidx_ERROR_TIMEOUT\<rparr>, snd s)"

definition StateErrorTimeout_hooks :: "('a TimedState_scheme, globals) hooks" where
  "StateErrorTimeout_hooks =
     \<lparr>s_setup = StateErrorTimeout_s_setup, loop = (\<lambda>s. s),
      s_finish = StateErrorTimeout_s_finish\<rparr>"

subsection \<open>The state that is dispatched in a single pass\<close>

text \<open>
  \<open>state_reward\<close>: the valve is opened, the pass blocks in \<open>delay\<close> for the reward
  duration, the valve is closed.
\<close>

definition state_reward :: "globals \<Rightarrow> globals" where
  "state_reward g =
     g\<lparr>solenoid_pin := solenoid_pin g @ [True, False], next_state := POST_REWARD_PAUSE\<rparr>"


section \<open>The sketch MultiSens.ino\<close>

subsection \<open>Reading a number from a string\<close>

text \<open>
  The conversions of the C library that the two versions of \<open>safe_int_convert\<close> call,
  \<open>sscanf\<close> with the format \<open>%ld\<close> and \<open>String::toInt\<close> (which is \<open>atol\<close>), are not part
  of the sources. They are modelled after the C standard: white space is skipped, an
  optional sign is read, then the longest run of decimal digits; what follows the digits
  is ignored. A value that does not fit a \<open>long\<close> wraps around.
\<close>

definition isspace :: "char \<Rightarrow> bool" where
  "isspace c =
     (c = CHR '' '' \<or> c = CHR 0x09 \<or> c = CHR 0x0A \<or> c = CHR 0x0B \<or> c = CHR 0x0C \<or> c = CHR 0x0D)"

definition isdigit :: "char \<Rightarrow> bool" where
  "isdigit c = (48 \<le> (of_char c :: nat) \<and> (of_char c :: nat) \<le> 57)"

fun digits_value :: "nat \<Rightarrow> string \<Rightarrow> nat" where
  "digits_value acc [] = acc"
| "digits_value acc (c # cs) = digits_value (acc * 10 + (of_char c - 48)) cs"

definition scan_long :: "string \<Rightarrow> long option" where
  "scan_long str =
    (let s1 = dropWhile isspace str;
         neg = (s1 \<noteq> [] \<and> hd s1 = CHR ''-'');
         s2 = (if s1 \<noteq> [] \<and> (hd s1 = CHR ''-'' \<or> hd s1 = CHR ''+'') then tl s1 else s1);
         ds = takeWhile isdigit s2
     in if ds = [] then None
        else Some (if neg then - word_of_nat (digits_value 0 ds)
                   else word_of_nat (digits_value 0 ds)))"

text \<open>
  \<open>sscanf(string_data, "%ld", &conversion_var)\<close>: the number of conversions made (or
  \<open>EOF\<close>, \<open>-1\<close>, when the input ends before any) and the value left in
  \<open>conversion_var\<close>, which the caller initialised to \<open>0\<close>.
\<close>

definition sscanf_ld :: "string \<Rightarrow> int \<times> long" where
  "sscanf_ld str =
    (if dropWhile isspace str = [] then (- 1, 0)
     else (case scan_long str of None \<Rightarrow> (0, 0) | Some v \<Rightarrow> (1, v)))"

definition String_toInt :: "string \<Rightarrow> long" where
  "String_toInt str = (case scan_long str of None \<Rightarrow> 0 | Some v \<Rightarrow> v)"

subsection \<open>safe_int_convert and take_action of MultiSens.ino\<close>

text \<open>
  \<open>int safe_int_convert(char *string_data, long &variable)\<close>: the status returned, the
  value of \<open>variable\<close> afterwards, and the lines printed.
\<close>

definition safe_int_convert :: "string \<Rightarrow> long \<Rightarrow> int \<times> long \<times> msg list" where
  "safe_int_convert string_data variable =
    (let r = sscanf_ld string_data;
         status = fst r;
         conversion_var = snd r
     in if status = 1
        then (0, conversion_var, [])
        else (1, variable, [M_ERR_SIC string_data]))"

text \<open>
  The search of \<open>take_action\<close> for the index into \<open>param_abbrevs\<close>: the first entry
  equal to the argument, \<open>-1\<close> when there is none.
\<close>

fun find_idx :: "string list \<Rightarrow> string \<Rightarrow> nat \<Rightarrow> int" where
  "find_idx [] argument1 i = - 1"
| "find_idx (a # as) argument1 i = (if a = argument1 then int i else find_idx as argument1 (Suc i))"

text \<open>
  \<open>int take_action(char *protocol_cmd, char *argument1, char *argument2)\<close>: the status
  returned and the globals afterwards. \<open>strncmp(protocol_cmd, "SET\0", 4) == 0\<close> holds
  exactly when the command is the string \<open>SET\<close>.
\<close>

definition take_action :: "string \<Rightarrow> string \<Rightarrow> string \<Rightarrow> globals \<Rightarrow> int \<times> globals" where
  "take_action protocol_cmd argument1 argument2 g =
    (if protocol_cmd = ''SET''
     then
       (let idx = find_idx param_abbrevs argument1 0
        in if idx = - 1
           then (4, g\<lparr>serial := serial g @ [M_ERR_param_not_found argument1]\<rparr>)
           else
             (let r = safe_int_convert argument2 (param_values g ! nat idx);
                  status = fst r;
                  g1 = g\<lparr>param_values := (param_values g)[nat idx := fst (snd r)],
                         serial := serial g @ snd (snd r)\<rparr>
              in if status \<noteq> 0
                 then (5, g1\<lparr>serial := serial g1 @ [M_ERR_cant_set_var]\<rparr>)
                 else (0, g1)))
     else if protocol_cmd = ''ACT''
     then (6, g)
     else (2, g))"

text \<open>
  Modelled from the spec: \<open>communications\<close> of the chat library is not part of the
  sources. By the spec a pending SET command is applied to the parameter store, the
  release of the trial sets the flag that WAIT_TO_START_TRIAL polls, and nothing changes
  when no message is pending.
\<close>

definition communications :: "ulong \<Rightarrow> chat \<Rightarrow> globals \<Rightarrow> int \<times> globals" where
  "communications time c g =
    (case c of
       NoChat \<Rightarrow> (0, g)
     | RELEASE_TRL \<Rightarrow> (0, g\<lparr>flag_start_trial := True\<rparr>)
     | Cmd protocol_cmd argument1 argument2 \<Rightarrow> take_action protocol_cmd argument1 argument2 g)"

subsection \<open>The main loop\<close>

text \<open>
  The state objects that States.cpp instantiates, the static \<open>current_state\<close> of \<open>loop\<close>
  and the globals.
\<close>

record machine =
  stim_period :: StimPeriod
  srw :: StateResponseWindow
  sfrw :: StateResponseWindow
  state_inter_trial_interval :: TimedState
  state_error_timeout :: TimedState
  state_post_reward_pause :: TimedState
  current_state :: STATE_TYPE
  glob :: globals

definition FAKE_RESPONDER :: bool where
  "FAKE_RESPONDER = False"

text \<open>The case \<open>TRIAL_START\<close> of the \<open>switch\<close>.\<close>

definition trial_start :: "ulong \<Rightarrow> globals \<Rightarrow> globals" where
  "trial_start time g =
    (let g1 = g\<lparr>serial := serial g @ [M_TRL_START time]\<rparr>;
         g2 = fold (\<lambda>i gl. if param_report_ET ! i
                            then gl\<lparr>serial := serial gl @
                                   [M_TRLP time (param_abbrevs ! i) (param_values gl ! i)]\<rparr>
                            else gl)
                [0..<N_TRIAL_PARAMS] g1;
         g3 = fold (\<lambda>i gl. gl\<lparr>results_values :=
                                (results_values gl)[i := default_results_values gl ! i]\<rparr>)
                [0..<N_TRIAL_RESULTS] g2
     in g3\<lparr>next_state := STIM_PERIOD\<rparr>)"

text \<open>The \<open>switch (current_state)\<close> of \<open>loop\<close>.\<close>

definition state_dependent :: "macros \<Rightarrow> ulong \<Rightarrow> machine \<Rightarrow> machine" where
  "state_dependent K time m =
    (case current_state m of
       WAIT_TO_START_TRIAL \<Rightarrow>
         (if flag_start_trial (glob m)
          then m\<lparr>glob := (glob m)\<lparr>serial := serial (glob m) @ [M_TRL_RELEASED time],
                                  flag_start_trial := False,
                                  next_state := TRIAL_START\<rparr>\<rparr>
          else m)
     | TRIAL_START \<Rightarrow> m\<lparr>glob := trial_start time (glob m)\<rparr>
     | STIM_PERIOD \<Rightarrow>
         (let r = run StimPeriod_hooks time (stim_period m, glob m)
          in m\<lparr>stim_period := fst r, glob := snd r\<rparr>)
     | RESPONSE_WINDOW \<Rightarrow>
         (if FAKE_RESPONDER
          then (let u = StateResponseWindow_update (sfrw m, glob m);
                    r = run (StateFakeResponseWindow_hooks K) time u
                in m\<lparr>sfrw := fst r, glob := snd r\<rparr>)
          else (let u = StateResponseWindow_update (srw m, glob m);
                    r = run (StateResponseWindow_hooks K) time u
                in m\<lparr>srw := fst r, glob := snd r\<rparr>))
     | REWARD \<Rightarrow>
         m\<lparr>glob := state_reward ((glob m)\<lparr>serial := serial (glob m) @ [M_EV_R_L time]\<rparr>)\<rparr>
     | POST_REWARD_PAUSE \<Rightarrow>
         (let r = run StatePostRewardPause_hooks time (state_post_reward_pause m, glob m)
          in m\<lparr>state_post_reward_pause := fst r, glob := snd r\<rparr>)
     | ERROR \<Rightarrow>
         (let r = run StateErrorTimeout_hooks time (state_error_timeout m, glob m)
          in m\<lparr>state_error_timeout := fst r, glob := snd r\<rparr>)
     | INTER_TRIAL_INTERVAL \<Rightarrow>
         (let r = run StateInterTrialInterval_hooks time (state_inter_trial_interval m, glob m)
          in m\<lparr>state_inter_trial_interval := fst r, glob := snd r\<rparr>))"

text \<open>
  \<open>void loop()\<close> of MultiSens.ino, one pass. (The name \<open>loop\<close> is the hook of a timed
  state here.)
\<close>

definition sketch_loop :: "macros \<Rightarrow> input \<Rightarrow> machine \<Rightarrow> machine" where
  "sketch_loop K i m =
    (let time = millis_loop i;
         g0 = (glob m)\<lparr>inp := i\<rparr>;
         g1 = g0\<lparr>next_state := current_state m\<rparr>;
         g2 = snd (communications time (chat_in i) g1);
         licking = checkLicks (aIn_poll i);
         g3 = (if licking \<noteq> sticky_licking g2
               then g2\<lparr>serial := serial g2 @ [M_LCK time], sticky_licking := licking\<rparr>
               else g2);
         m1 = state_dependent K time (m\<lparr>glob := g3\<rparr>);
         g4 = glob m1;
         g5 = (if next_state g4 \<noteq> current_state m1
               then g4\<lparr>serial := serial g4 @
                        [M_ST_CHG time (current_state m1) (next_state g4),
                         M_ST_CHG2 (millis_chg i) (current_state m1) (next_state g4)]\<rparr>
               else g4)
     in m1\<lparr>glob := g5, current_state := next_state g5\<rparr>)"

fun sketch_loops :: "macros \<Rightarrow> input list \<Rightarrow> machine \<Rightarrow> machine" where
  "sketch_loops K [] m = m"
| "sketch_loops K (i # is) m = sketch_loops K is (sketch_loop K i m)"

subsection \<open>The state at start-up\<close>

text \<open>
  Modelled from the spec: the constructor \<open>TimedState(d)\<close> is not part of the sources.
  By the spec a timed state is constructed with its duration, and its deadline is the
  sentinel \<open>0\<close> while it is inactive.
\<close>

definition TimedState_new :: "ulong \<Rightarrow> TimedState" where
  "TimedState_new d = \<lparr>time_of_last_call = 0, timer = 0, duration = d, flag_stop = False\<rparr>"

definition no_input :: input where
  "no_input = \<lparr>millis_loop = 0, chat_in = NoChat, aIn_poll = 0, aIn_update = 0, aIn_slv = 0,
               millis_stim = 0, millis_chg = 0, random_in = 0\<rparr>"

definition initial_globals :: globals where
  "initial_globals =
     \<lparr>param_values = initial_param_values,
      results_values = [0, 0],
      default_results_values = [0, 0],
      next_state = WAIT_TO_START_TRIAL,
      flag_start_trial = False,
      sticky_licking = False,
      solenoid_pin = [],
      dev_calls = [],
      serial = [],
      inp = no_input\<rparr>"

definition initial_machine :: machine where
  "initial_machine =
     \<lparr>stim_period =
        \<lparr>time_of_last_call = 0, timer = 0,
         duration = initial_param_values ! tpidx_STIM_DUR, flag_stop = False,
         licked = 0, devFcns = [0, 0]\<rparr>,
      srw =
        \<lparr>time_of_last_call = 0, timer = 0,
         duration = initial_param_values ! tpidx_RESP_WIN_DUR, flag_stop = False,
         my_licking = False, my_rewards_this_trial = 0\<rparr>,
      sfrw =
        \<lparr>time_of_last_call = 0, timer = 0,
         duration = initial_param_values ! tpidx_RESP_WIN_DUR, flag_stop = False,
         my_licking = False, my_rewards_this_trial = 0\<rparr>,
      state_inter_trial_interval = TimedState_new (initial_param_values ! tpidx_ITI),
      state_error_timeout = TimedState_new (initial_param_values ! tpidx_ERROR_TIMEOUT),
      state_post_reward_pause = TimedState_new (initial_param_values ! tpidx_INTER_REWARD_INTERVAL),
      current_state = WAIT_TO_START_TRIAL,
      glob = initial_globals\<rparr>"

text \<open>
  Values for the macros, used only where a run is evaluated on concrete data; every
  theorem about the protocol is stated for all values of the macros.
\<close>

definition example_macros :: macros where
  "example_macros =
     \<lparr>GO = 1, NOGO = 2, OUTCOME_HIT = 1, OUTCOME_FA = 2, OUTCOME_CR = 3, OUTCOME_MISS = 4,
      TRIAL_SPEAK_NO = 2\<rparr>"

section \<open>The earlier sketch with String arguments\<close>

text \<open>
  The sources also hold an earlier sketch whose only parameter is the inter-trial
  interval, kept in \<open>trial_params\<close>. Its \<open>safe_int_convert\<close> stores the result of
  \<open>toInt\<close> in an \<open>int\<close> and treats the value \<open>0\<close> as the error.
\<close>

record TRIAL_PARAMS_TYPE =
  inter_trial_interval :: ulong

definition safe_int_convert_String :: "string \<Rightarrow> ulong \<Rightarrow> int \<times> ulong" where
  "safe_int_convert_String string_data variable =
    (let conversion_var = (ucast (String_toInt string_data) :: c_int)
     in if conversion_var = 0
        then (1, variable)
        else (0, scast conversion_var))"

definition take_action_String ::
  "string \<Rightarrow> string \<Rightarrow> string \<Rightarrow> TRIAL_PARAMS_TYPE \<Rightarrow> int \<times> TRIAL_PARAMS_TYPE" where
  "take_action_String protocol_cmd argument1 argument2 trial_params =
    (if protocol_cmd = ''SET''
     then
       (if argument1 = ''ITI''
        then
          (let r = safe_int_convert_String argument2 (inter_trial_interval trial_params);
               status = fst r;
               trial_params1 = trial_params\<lparr>inter_trial_interval := snd r\<rparr>
           in if status \<noteq> 0 then (5, trial_params1) else (0, trial_params1))
        else (4, trial_params))
     else (2, trial_params))"


section \<open>Auxiliary definitions for the proofs\<close>

text \<open>
  The globals as the \<open>switch\<close> of \<open>loop\<close> finds them: the part of \<open>sketch_loop\<close> that
  comes before the \<open>switch\<close>.
\<close>

definition before_switch :: "input \<Rightarrow> machine \<Rightarrow> globals" where
  "before_switch i m =
    (let time = millis_loop i;
         g0 = (glob m)\<lparr>inp := i\<rparr>;
         g1 = g0\<lparr>next_state := current_state m\<rparr>;
         g2 = snd (communications time (chat_in i) g1);
         licking = checkLicks (aIn_poll i)
     in if licking \<noteq> sticky_licking g2
        then g2\<lparr>serial := serial g2 @ [M_LCK time], sticky_licking := licking\<rparr>
        else g2)"

text \<open>The response of the trial is set, to the value \<open>v\<close>.\<close>

definition latched :: "long \<Rightarrow> globals \<Rightarrow> bool" where
  "latched v g = (v \<noteq> 0 \<and> results_values g ! tridx_RESPONSE = v)"

text \<open>
  The result table has as many entries as the list \<open>d\<close>, and \<open>d\<close> is the table of the
  default results.
\<close>

definition tables :: "long list \<Rightarrow> globals \<Rightarrow> bool" where
  "tables d g = (length (results_values g) = length d \<and> default_results_values g = d)"

text \<open>
  The readings of a pass at time \<open>t\<close> that receives the chat message \<open>c\<close> and whose lick
  detector reads \<open>a\<close> at every call of \<open>analogRead\<close>.
\<close>

definition pass :: "ulong \<Rightarrow> chat \<Rightarrow> int \<Rightarrow> input" where
  "pass t c a = \<lparr>millis_loop = t, chat_in = c, aIn_poll = a, aIn_update = a, aIn_slv = a,
               millis_stim = t, millis_chg = t, random_in = 5000\<rparr>"

section \<open>Properties of the timed-state engine\<close>

lemmas tpidx_defs =
  tpidx_STPRIDX_def tpidx_SPKRIDX_def tpidx_STIM_DUR_def tpidx_REW_def tpidx_REW_DUR_def
  tpidx_INTER_REWARD_INTERVAL_def tpidx_ERROR_TIMEOUT_def tpidx_ITI_def
  tpidx_RESP_WIN_DUR_def tpidx_MRT_def tpidx_TERMINATE_ON_ERR_def

lemmas tridx_defs = N_TRIAL_RESULTS_def tridx_RESPONSE_def tridx_OUTCOME_def

lemma upt_0_2: "[0..<2] = [0, Suc 0]"
  by (simp add: upt_rec)

subsection \<open>One call of run\<close>

lemma run_arm:
  "run h time s0 =
    (if fires h time s0
     then (let c = s_finish h (arm h time s0) in ((fst c)\<lparr>timer := 0\<rparr>, snd c))
     else loop h (arm h time s0))"
  by (simp add: run_def arm_def fires_def Let_def)

lemma arm_traced:
  "arm (traced h) t s =
     (fst (arm h t (forget s)),
      (snd (arm h t (forget s)), trace s @ (if timer (fst s) = 0 then [Setup] else [])))"
  by (simp add: arm_def traced_def logged_def forget_def trace_def Let_def)

lemma fires_traced: "fires (traced h) t s = fires h t (forget s)"
  by (simp add: fires_def arm_traced)

lemma forget_run_traced: "forget (run (traced h) t s) = run h t (forget s)"
  by (simp add: run_arm fires_traced arm_traced Let_def)
     (simp add: traced_def logged_def forget_def Let_def)

lemma trace_run_traced:
  "trace (run (traced h) t s) =
     trace s @ (if timer (fst s) = 0 then [Setup] else [])
             @ [if fires h t (forget s) then Finish else Loop]"
  by (simp add: run_arm fires_traced arm_traced Let_def)
     (simp add: traced_def logged_def forget_def trace_def Let_def)

lemma timer_run_fires: "fires h t s \<Longrightarrow> timer (fst (run h t s)) = 0"
  by (simp add: run_arm Let_def)

lemma timer_arm_active: "timer (fst s) \<noteq> 0 \<Longrightarrow> timer (fst (arm h t s)) = timer (fst s)"
  by (simp add: arm_def Let_def)

lemma timer_run_loop:
  "loop_keeps_timer h \<Longrightarrow> \<not> fires h t s \<Longrightarrow> timer (fst (run h t s)) = timer (fst (arm h t s))"
  unfolding loop_keeps_timer_def run_arm by (simp del: split_paired_All)

lemma not_fires_timer: "\<not> fires h t s \<Longrightarrow> timer (fst (arm h t s)) \<noteq> 0"
  by (auto simp: fires_def)

lemma timer_run_iff:
  "loop_keeps_timer h \<Longrightarrow> (timer (fst (run h t s)) = 0) = fires h t s"
  using timer_run_fires timer_run_loop not_fires_timer by metis

lemma fst_forget: "fst (forget s) = fst s"
  by (simp add: forget_def)

lemma trace_continue:
  "timer (fst s) \<noteq> 0 \<Longrightarrow> loop_keeps_timer h \<Longrightarrow> is_activation h ts (forget s) \<Longrightarrow>
   trace (runs (traced h) ts s) = trace s @ replicate (length ts - 1) Loop @ [Finish]"
proof (induction ts arbitrary: s)
  case Nil
  then show ?case by simp
next
  case (Cons t ts)
  show ?case
  proof (cases ts)
    case Nil
    with Cons.prems have "fires h t (forget s)"
      by (simp add: timer_run_iff)
    with Nil Cons.prems(1) show ?thesis
      by (simp add: trace_run_traced)
  next
    case (Cons t' ts')
    let ?s' = "run (traced h) t s"
    from Cons Cons.prems have nz: "timer (fst (run h t (forget s))) \<noteq> 0"
      and act: "is_activation h ts (run h t (forget s))"
      by simp_all
    from nz Cons.prems(2) have nf: "\<not> fires h t (forget s)"
      by (simp add: timer_run_iff)
    have f: "forget ?s' = run h t (forget s)" by (rule forget_run_traced)
    have "timer (fst ?s') \<noteq> 0" using nz f fst_forget by metis
    moreover have "is_activation h ts (forget ?s')" using act f by simp
    ultimately have "trace (runs (traced h) ts ?s') = trace ?s' @ replicate (length ts - 1) Loop @ [Finish]"
      using Cons.IH Cons.prems(2) by blast
    with nf Cons.prems(1) Cons show ?thesis
      by (simp add: trace_run_traced)
  qed
qed


lemma trace_prefix_continue:
  "timer (fst s) \<noteq> 0 \<Longrightarrow> loop_keeps_timer h \<Longrightarrow> is_activation h ts (forget s) \<Longrightarrow>
   k < length ts \<Longrightarrow> trace (runs (traced h) (take k ts) s) = trace s @ replicate k Loop"
proof (induction ts arbitrary: s k)
  case Nil
  then show ?case by simp
next
  case (Cons t ts)
  show ?case
  proof (cases k)
    case 0
    then show ?thesis by simp
  next
    case (Suc j)
    with Cons.prems(4) obtain t' ts' where ts: "ts = t' # ts'" and j: "j < length ts"
      by (cases ts) auto
    let ?s' = "run (traced h) t s"
    from ts Cons.prems have nz: "timer (fst (run h t (forget s))) \<noteq> 0"
      and act: "is_activation h ts (run h t (forget s))"
      by simp_all
    from nz Cons.prems(2) have nf: "\<not> fires h t (forget s)"
      by (simp add: timer_run_iff)
    have f: "forget ?s' = run h t (forget s)" by (rule forget_run_traced)
    have "timer (fst ?s') \<noteq> 0" using nz f fst_forget by metis
    moreover have "is_activation h ts (forget ?s')" using act f by simp
    ultimately have "trace (runs (traced h) (take j ts) ?s') = trace ?s' @ replicate j Loop"
      using Cons.IH Cons.prems(2) j by blast
    with nf Cons.prems(1) Suc show ?thesis
      by (simp add: trace_run_traced replicate_append_same)
  qed
qed

lemma runs_snoc: "runs h (ts @ [t]) s = run h t (runs h ts s)"
  by (induction ts arbitrary: s) simp_all

lemma forget_runs_traced: "forget (runs (traced h) ts s) = runs h ts (forget s)"
  by (induction ts arbitrary: s) (simp_all add: forget_run_traced)

lemma flag_arm_active: "timer (fst s) \<noteq> 0 \<Longrightarrow> flag_stop (fst (arm h t s)) = flag_stop (fst s)"
  by (simp add: arm_def Let_def)

lemma arm_inactive:
  "timer (fst s) = 0 \<Longrightarrow>
   timer (fst (arm h t s)) = t + duration (fst (s_setup h ((fst s)\<lparr>time_of_last_call := t\<rparr>, snd s))) \<and>
   \<not> flag_stop (fst (arm h t s))"
  by (simp add: arm_def Let_def)

lemma no_finish_timer:
  assumes inactive: "timer obj = 0"
    and keeps: "loop_keeps_timer h"
    and d: "d = duration (fst (s_setup h (obj\<lparr>time_of_last_call := t0\<rparr>, g)))"
  shows "k \<le> length rest \<Longrightarrow>
     Finish \<notin> set (trace (runs (traced h) (take (Suc k) (t0 # rest)) (obj, g, []))) \<Longrightarrow>
     timer (fst (runs h (take (Suc k) (t0 # rest)) (obj, g))) = t0 + d \<and> t0 + d \<noteq> 0"
proof (induction k)
  case 0
  have fg: "forget (obj, g, []) = (obj, g)" by (simp add: forget_def)
  from 0 have nf: "\<not> fires h t0 (obj, g)"
    using inactive fg by (simp add: trace_run_traced split: if_splits)
  from arm_inactive [of "(obj, g)" h t0] inactive d
  have "timer (fst (arm h t0 (obj, g))) = t0 + d" by simp
  with nf keeps show ?case
    using timer_run_loop [OF keeps nf] not_fires_timer [OF nf] by simp
next
  case (Suc k)
  let ?pre = "take (Suc k) (t0 # rest)"
  let ?t = "(t0 # rest) ! Suc k"
  from Suc.prems have lt: "Suc k < length (t0 # rest)" by simp
  have tk: "take (Suc (Suc k)) (t0 # rest) = ?pre @ [?t]"
    using take_Suc_conv_app_nth [OF lt] .
  let ?S = "runs (traced h) ?pre (obj, g, [])"
  let ?s = "runs h ?pre (obj, g)"
  have fS: "forget ?S = ?s" using forget_runs_traced [of h ?pre "(obj, g, [])"]
    by (simp add: forget_def)
  have tr: "trace (runs (traced h) (take (Suc (Suc k)) (t0 # rest)) (obj, g, [])) =
            trace ?S @ (if timer (fst ?S) = 0 then [Setup] else [])
                     @ [if fires h ?t ?s then Finish else Loop]"
    using trace_run_traced [of h ?t ?S] fS tk runs_snoc [of "traced h" ?pre ?t "(obj, g, [])"]
    by simp
  from Suc.prems(2) tr have nfin: "Finish \<notin> set (trace ?S)" and nf: "\<not> fires h ?t ?s"
    by (auto split: if_splits)
  from Suc.IH nfin Suc.prems(1) have ih: "timer (fst ?s) = t0 + d" "t0 + d \<noteq> 0" by simp_all
  have "runs h (take (Suc (Suc k)) (t0 # rest)) (obj, g) = run h ?t ?s"
    using tk runs_snoc [of h ?pre ?t "(obj, g)"] by simp
  with timer_run_loop [OF keeps nf] timer_arm_active [of ?s h ?t] ih
  show ?case by simp
qed


subsection \<open>The loop hooks of States.cpp leave the timer alone\<close>

lemma StimPeriod_loop_keeps_timer: "loop_keeps_timer StimPeriod_hooks"
  by (simp add: loop_keeps_timer_def StimPeriod_hooks_def StimPeriod_loop_def Let_def)

lemma StateResponseWindow_loop_keeps_timer: "loop_keeps_timer (StateResponseWindow_hooks K)"
  by (simp add: loop_keeps_timer_def StateResponseWindow_hooks_def StateResponseWindow_loop_def
      Let_def)

lemma StateFakeResponseWindow_loop_keeps_timer:
  "loop_keeps_timer (StateFakeResponseWindow_hooks K)"
  by (simp add: loop_keeps_timer_def StateFakeResponseWindow_hooks_def
      StateResponseWindow_loop_def Let_def)

lemma idle_loop_keeps_timer:
  "loop_keeps_timer StateInterTrialInterval_hooks"
  "loop_keeps_timer StatePostRewardPause_hooks"
  "loop_keeps_timer StateErrorTimeout_hooks"
  "loop_keeps_timer TimedState_hooks"
  by (simp_all add: loop_keeps_timer_def StateInterTrialInterval_hooks_def
      StatePostRewardPause_hooks_def StateErrorTimeout_hooks_def TimedState_hooks_def)

subsection \<open>Order of the hooks within an activation\<close>

text \<open>
  Claim C1, as amended. Take any timed state whose \<open>loop\<close> hook does not write the timer
  (every state class of States.cpp is one), and any activation: calls of \<open>run\<close> at the
  times \<open>ts\<close>, begun with the sentinel inactive, ended by the first call that resets the
  sentinel. Then the hooks invoked during the activation are, in order, \<open>s_setup\<close> once,
  \<open>loop\<close> once for every call but the last, and \<open>s_finish\<close> once: \<open>s_setup\<close> comes
  first and belongs to the first call, \<open>s_finish\<close> comes last and belongs to the last
  call, every invocation of \<open>loop\<close> lies between the two and none follows \<open>s_finish\<close>.
  The calls that invoke \<open>loop\<close> are all the calls before the last, the first call
  included: the second conjunct places the hooks call by call, after \<open>k\<close> calls that are
  not all of the activation the log is \<open>s_setup\<close> followed by \<open>k\<close> times \<open>loop\<close>, so a
  first call that is not the last runs \<open>s_setup\<close> and then \<open>loop\<close>.
\<close>

theorem TimedState_activation_order:
  assumes inactive: "timer obj = 0"
    and keeps: "loop_keeps_timer h"
    and act: "is_activation h ts (obj, g)"
  shows "trace (runs (traced h) ts (obj, g, [])) =
           Setup # replicate (length ts - 1) Loop @ [Finish] \<and>
         (\<forall>k. 0 < k \<and> k < length ts \<longrightarrow>
              trace (runs (traced h) (take k ts) (obj, g, [])) = Setup # replicate k Loop)"
proof -
  let ?s = "(obj, g, [])"
  from act obtain t rest where ts: "ts = t # rest" by (cases ts) auto
  have fg: "forget ?s = (obj, g)" by (simp add: forget_def)
  show ?thesis
  proof (cases rest)
    case Nil
    with ts act keeps have "fires h t (obj, g)" by (simp add: timer_run_iff)
    with ts Nil inactive fg show ?thesis
      by (simp add: trace_run_traced) (simp add: trace_def)
  next
    case (Cons t' ts')
    let ?s' = "run (traced h) t ?s"
    from ts Cons act have nz: "timer (fst (run h t (obj, g))) \<noteq> 0"
      and act': "is_activation h rest (run h t (obj, g))"
      by simp_all
    from nz keeps have nf: "\<not> fires h t (obj, g)" by (simp add: timer_run_iff)
    have f: "forget ?s' = run h t (obj, g)" using forget_run_traced [of h t ?s] fg by simp
    have nz': "timer (fst ?s') \<noteq> 0" using nz f fst_forget by metis
    have act'': "is_activation h rest (forget ?s')" using act' f by simp
    have tr: "trace ?s' = [Setup, Loop]"
      using nf inactive fg by (simp add: trace_run_traced) (simp add: trace_def)
    have whole: "trace (runs (traced h) rest ?s') = trace ?s' @ replicate (length rest - 1) Loop @ [Finish]"
      using trace_continue [OF nz' keeps act''] .
    have pre: "trace (runs (traced h) (take j rest) ?s') = trace ?s' @ replicate j Loop"
      if "j < length rest" for j
      using trace_prefix_continue [OF nz' keeps act'' that] .
    have a: "trace (runs (traced h) ts ?s) = Setup # replicate (length ts - 1) Loop @ [Finish]"
      using whole tr ts Cons by (simp add: replicate_append_same)
    have b: "trace (runs (traced h) (take k ts) ?s) = Setup # replicate k Loop"
      if "0 < k" "k < length ts" for k
    proof -
      from that obtain j where k: "k = Suc j" by (cases k) auto
      with that ts have "j < length rest" by simp
      from pre [OF this] tr k ts show ?thesis by (simp add: replicate_append_same)
    qed
    from a b show ?thesis by blast
  qed
qed

theorem TimedState_activation_order_witness:
  "timer \<lparr>time_of_last_call = 0, timer = 0, duration = 5, flag_stop = False\<rparr> = 0 \<and>
   loop_keeps_timer (TimedState_hooks :: (TimedState, unit) hooks) \<and>
   is_activation TimedState_hooks [10, 12, 15]
     (\<lparr>time_of_last_call = 0, timer = 0, duration = 5, flag_stop = False\<rparr>, ()) \<and>
   trace (runs (traced TimedState_hooks) [10, 12, 15]
     (\<lparr>time_of_last_call = 0, timer = 0, duration = 5, flag_stop = False\<rparr>, (), [])) =
     [Setup, Loop, Loop, Finish]"
proof -
  let ?o = "\<lparr>time_of_last_call = 0, timer = 0, duration = 5, flag_stop = False\<rparr> :: TimedState"
  have a: "timer ?o = 0" by simp
  have b: "loop_keeps_timer (TimedState_hooks :: (TimedState, unit) hooks)"
    by (simp add: loop_keeps_timer_def TimedState_hooks_def)
  have c: "is_activation TimedState_hooks [10, 12, 15] (?o, ())"
    by (simp add: run_def TimedState_hooks_def Let_def)
  from TimedState_activation_order [OF a b c] a b c show ?thesis by simp
qed

text \<open>
  The claim as it was stated, with \<open>loop\<close> only on the calls strictly between the first
  and the last, fails: a timed state of the base class with duration \<open>5\<close> is activated
  at time \<open>10\<close> and called again at time \<open>15\<close>. The two calls are an activation, no call
  lies strictly between its first and its last, and yet \<open>loop\<close> is invoked once, by the
  first call, right after \<open>s_setup\<close>.
\<close>

theorem loop_on_first_call_counterexample:
  "timer \<lparr>time_of_last_call = 0, timer = 0, duration = 5, flag_stop = False\<rparr> = 0 \<and>
   is_activation TimedState_hooks [10, 15]
     (\<lparr>time_of_last_call = 0, timer = 0, duration = 5, flag_stop = False\<rparr>, ()) \<and>
   trace (run (traced TimedState_hooks) 10
     (\<lparr>time_of_last_call = 0, timer = 0, duration = 5, flag_stop = False\<rparr>, (), [])) =
     [Setup, Loop] \<and>
   trace (runs (traced TimedState_hooks) [10, 15]
     (\<lparr>time_of_last_call = 0, timer = 0, duration = 5, flag_stop = False\<rparr>, (), [])) =
     [Setup, Loop, Finish]"
  by (simp add: run_def traced_def logged_def trace_def TimedState_hooks_def Let_def)



subsection \<open>The tick on which s_finish is invoked\<close>

text \<open>
  Claim C2, as amended. A timed state is activated at \<open>t0\<close>; \<open>d\<close> is its duration when the
  deadline is computed, that is after \<open>s_setup\<close>, and \<open>t0 + d\<close> is the sum in
  \<open>unsigned long\<close>. Calls follow at the times \<open>rest\<close>. For a call \<open>k\<close> before which
  \<open>s_finish\<close> has not been invoked: the call invokes \<open>s_finish\<close> exactly when its time
  is at least \<open>t0 + d\<close>, or when it is not the first call and the stop flag is set as the
  call begins. The flag is set by \<open>loop\<close>, which \<open>run\<close> invokes after the test of the
  flag: so \<open>s_finish\<close> is invoked by the call that follows the one whose \<open>loop\<close> set the
  flag, not by that call itself.
\<close>

theorem TimedState_finish_tick:
  assumes inactive: "timer obj = 0"
    and keeps: "loop_keeps_timer h"
    and d: "d = duration (fst (s_setup h (obj\<lparr>time_of_last_call := t0\<rparr>, g)))"
    and k: "k < length (t0 # rest)"
    and before: "Finish \<notin> set (trace (runs (traced h) (take k (t0 # rest)) (obj, g, [])))"
  shows "Finish \<in> set (trace (runs (traced h) (take (Suc k) (t0 # rest)) (obj, g, []))) \<longleftrightarrow>
         (t0 + d \<le> (t0 # rest) ! k \<or>
          (0 < k \<and> flag_stop (fst (runs h (take k (t0 # rest)) (obj, g)))))"
proof (cases k)
  case 0
  have fg: "forget (obj, g, []) = (obj, g)" by (simp add: forget_def)
  from arm_inactive [of "(obj, g)" h t0] inactive d
  have "fires h t0 (obj, g) \<longleftrightarrow> t0 + d \<le> t0" by (simp add: fires_def)
  with 0 inactive fg show ?thesis
    by (simp add: trace_run_traced) (simp add: trace_def)
next
  case (Suc j)
  let ?pre = "take k (t0 # rest)"
  let ?t = "(t0 # rest) ! k"
  have tk: "take (Suc k) (t0 # rest) = ?pre @ [?t]"
    using take_Suc_conv_app_nth [OF k] .
  let ?S = "runs (traced h) ?pre (obj, g, [])"
  let ?s = "runs h ?pre (obj, g)"
  have fS: "forget ?S = ?s" using forget_runs_traced [of h ?pre "(obj, g, [])"]
    by (simp add: forget_def)
  from k Suc have j: "j \<le> length rest" by simp
  from no_finish_timer [OF inactive keeps d j] before Suc
  have tm: "timer (fst ?s) = t0 + d" "t0 + d \<noteq> 0" by simp_all
  then have nz: "timer (fst ?s) \<noteq> 0" by simp
  have nzS: "timer (fst ?S) \<noteq> 0" using nz fS fst_forget by metis
  have tr: "trace (runs (traced h) (take (Suc k) (t0 # rest)) (obj, g, [])) =
            trace ?S @ [if fires h ?t ?s then Finish else Loop]"
    using trace_run_traced [of h ?t ?S] fS tk nzS runs_snoc [of "traced h" ?pre ?t "(obj, g, [])"]
    by simp
  have "fires h ?t ?s \<longleftrightarrow> flag_stop (fst ?s) \<or> t0 + d \<le> ?t"
    using timer_arm_active [OF nz] flag_arm_active [OF nz] tm by (simp add: fires_def)
  with tr before Suc show ?thesis by auto
qed


theorem TimedState_finish_tick_witness:
  "trace (runs (traced (StateResponseWindow_hooks example_macros)) [100, 101]
       ((srw initial_machine)\<lparr>my_rewards_this_trial := 1\<rparr>, initial_globals, []))
     = [Setup, Loop, Finish] \<and>
   (Finish \<in> set (trace (runs (traced (StateResponseWindow_hooks example_macros)) (take (Suc 1) [100, 101])
       ((srw initial_machine)\<lparr>my_rewards_this_trial := 1\<rparr>, initial_globals, []))) \<longleftrightarrow>
    ((100 :: ulong) + 45000 \<le> [100, 101] ! 1 \<or>
     (0 < (1 :: nat) \<and> flag_stop (fst (runs (StateResponseWindow_hooks example_macros) (take 1 [100, 101])
       ((srw initial_machine)\<lparr>my_rewards_this_trial := 1\<rparr>, initial_globals))))))"
proof -
  let ?h = "StateResponseWindow_hooks example_macros :: (StateResponseWindow, globals) hooks"
  let ?obj = "(srw initial_machine)\<lparr>my_rewards_this_trial := 1\<rparr>"
  have a: "timer ?obj = 0" by (simp add: initial_machine_def)
  have b: "loop_keeps_timer ?h" by (rule StateResponseWindow_loop_keeps_timer)
  have c: "(45000 :: ulong) = duration (fst (s_setup ?h (?obj\<lparr>time_of_last_call := 100\<rparr>, initial_globals)))"
    by (simp add: StateResponseWindow_hooks_def StateResponseWindow_s_setup_def initial_globals_def
        initial_param_values_def tpidx_defs)
  have d: "(1 :: nat) < length [100 :: ulong, 101]" by simp
  have e: "Finish \<notin> set (trace (runs (traced ?h) (take 1 [100, 101]) (?obj, initial_globals, [])))"
    by (simp add: run_def traced_def logged_def trace_def StateResponseWindow_hooks_def
      StateResponseWindow_s_setup_def StateResponseWindow_loop_def
      initial_machine_def initial_globals_def initial_param_values_def tpidx_defs tridx_defs Let_def)
  have f: "trace (runs (traced ?h) [100, 101] (?obj, initial_globals, [])) = [Setup, Loop, Finish]"
    by (simp add: run_def traced_def logged_def trace_def StateResponseWindow_hooks_def
      StateResponseWindow_s_setup_def StateResponseWindow_loop_def StateResponseWindow_s_finish_def
      initial_machine_def initial_globals_def initial_param_values_def tpidx_defs tridx_defs
      Let_def example_macros_def)
  from TimedState_finish_tick [OF a b c d e] f show ?thesis by simp
qed


text \<open>
  The claim as it was stated fails: the response window of the start-up state, with one
  reward already given and MRT at its default \<open>1\<close>, is activated at time \<open>100\<close>. The
  \<open>loop\<close> of that call sets the stop flag, and the call invokes no \<open>s_finish\<close>; the
  call at time \<open>101\<close> does, long before \<open>100 + 45000\<close>.
\<close>

theorem stop_flag_same_tick_counterexample:
  "flag_stop (fst (run (traced (StateResponseWindow_hooks example_macros)) 100
       ((srw initial_machine)\<lparr>my_rewards_this_trial := 1\<rparr>, initial_globals, []))) \<and>
   trace (run (traced (StateResponseWindow_hooks example_macros)) 100
       ((srw initial_machine)\<lparr>my_rewards_this_trial := 1\<rparr>, initial_globals, [])) = [Setup, Loop] \<and>
   trace (runs (traced (StateResponseWindow_hooks example_macros)) [100, 101]
       ((srw initial_machine)\<lparr>my_rewards_this_trial := 1\<rparr>, initial_globals, []))
     = [Setup, Loop, Finish] \<and>
   \<not> ((100 :: ulong) + 45000 \<le> 101)"
  by (simp add: run_def traced_def logged_def trace_def StateResponseWindow_hooks_def
      StateResponseWindow_s_setup_def StateResponseWindow_loop_def StateResponseWindow_s_finish_def
      initial_machine_def initial_globals_def initial_param_values_def tpidx_defs tridx_defs
      Let_def example_macros_def)

subsection \<open>Duration zero\<close>

text \<open>
  Claim C10. When the duration of a timed state is \<open>0\<close> as its deadline is computed
  (after \<open>s_setup\<close>, which for the base class changes nothing), the first call of \<open>run\<close>
  of an activation invokes \<open>s_setup\<close> and then \<open>s_finish\<close> and no \<open>loop\<close>, and leaves
  the timer at the inactive sentinel \<open>0\<close>: the call is a whole activation.
\<close>

theorem TimedState_zero_duration:
  assumes inactive: "timer obj = 0"
    and zero: "duration (fst (s_setup h (obj\<lparr>time_of_last_call := t\<rparr>, g))) = 0"
  shows "trace (run (traced h) t (obj, g, [])) = [Setup, Finish] \<and>
         timer (fst (run h t (obj, g))) = 0 \<and>
         is_activation h [t] (obj, g)"
proof -
  have fg: "forget (obj, g, []) = (obj, g)" by (simp add: forget_def)
  from arm_inactive [of "(obj, g)" h t] inactive zero
  have f: "fires h t (obj, g)" by (simp add: fires_def)
  from f inactive fg have "trace (run (traced h) t (obj, g, [])) = [Setup, Finish]"
    by (simp add: trace_run_traced) (simp add: trace_def)
  with timer_run_fires [OF f] show ?thesis by simp
qed

theorem TimedState_zero_duration_witness:
  "timer (TimedState_new 0) = 0 \<and>
   duration (fst (s_setup (TimedState_hooks :: (TimedState, unit) hooks)
      ((TimedState_new 0)\<lparr>time_of_last_call := 7\<rparr>, ()))) = 0 \<and>
   trace (run (traced TimedState_hooks) 7 (TimedState_new 0, (), [])) = [Setup, Finish] \<and>
   timer (fst (run TimedState_hooks 7 (TimedState_new 0, ()))) = 0"
proof -
  have a: "timer (TimedState_new 0) = 0" by (simp add: TimedState_new_def)
  have b: "duration (fst (s_setup (TimedState_hooks :: (TimedState, unit) hooks)
      ((TimedState_new 0)\<lparr>time_of_last_call := 7\<rparr>, ()))) = 0"
    by (simp add: TimedState_new_def TimedState_hooks_def)
  from TimedState_zero_duration [OF a b] a b show ?thesis by simp
qed

section \<open>Properties of the states of MultiSens\<close>

subsection \<open>One pass of the main loop\<close>

lemmas eval_defs =
  sketch_loop_def state_dependent_def communications_def take_action_def trial_start_def
  run_def StimPeriod_hooks_def StimPeriod_s_setup_def StimPeriod_loop_def StimPeriod_s_finish_def
  StateResponseWindow_hooks_def StateResponseWindow_s_setup_def StateResponseWindow_loop_def
  StateResponseWindow_s_finish_def StateResponseWindow_update_def
  StateResponseWindow_set_licking_variables_def
  StateErrorTimeout_hooks_def StateErrorTimeout_s_setup_def StateErrorTimeout_s_finish_def
  checkLicks_def lickThresh_def FAKE_RESPONDER_def NUM_DEVICES_def N_TRIAL_PARAMS_def
  N_TRIAL_RESULTS_def devIndices_def param_report_ET_def param_abbrevs_def
  initial_machine_def initial_globals_def initial_param_values_def TimedState_new_def
  no_input_def tpidx_defs tridx_defs example_macros_def pass_def Let_def upt_0_2

lemma upt_0_11: "[0..<11] = [0,1,2,3,4,5,6,7,8,9,10]"
  by (simp add: upt_rec)

lemma fold_serial_results:
  "results_values (fold (\<lambda>i gl. if c i then gl\<lparr>serial := serial gl @ [f i gl]\<rparr> else gl) xs g) = results_values g \<and>
   default_results_values (fold (\<lambda>i gl. if c i then gl\<lparr>serial := serial gl @ [f i gl]\<rparr> else gl) xs g) = default_results_values g"
  by (induction xs arbitrary: g) simp_all

lemma reset_two:
  "length xs = 2 \<Longrightarrow> length ds = 2 \<Longrightarrow> xs[0 := ds ! 0, Suc 0 := ds ! Suc 0] = ds"
  by (auto simp: length_Suc_conv numeral_2_eq_2)

lemma trial_start_results:
  assumes "length (results_values g) = N_TRIAL_RESULTS"
    and "length (default_results_values g) = N_TRIAL_RESULTS"
  shows "results_values (trial_start time g) = default_results_values g \<and>
         default_results_values (trial_start time g) = default_results_values g"
proof -
  let ?g2 = "fold (\<lambda>i gl. if param_report_ET ! i
                            then gl\<lparr>serial := serial gl @
                                   [M_TRLP time (param_abbrevs ! i) (param_values gl ! i)]\<rparr>
                            else gl)
                [0..<N_TRIAL_PARAMS] (g\<lparr>serial := serial g @ [M_TRL_START time]\<rparr>)"
  have r: "results_values ?g2 = results_values g" "default_results_values ?g2 = default_results_values g"
    using fold_serial_results [of "\<lambda>i. param_report_ET ! i" "\<lambda>i gl. M_TRLP time (param_abbrevs ! i) (param_values gl ! i)"
        "[0..<N_TRIAL_PARAMS]" "g\<lparr>serial := serial g @ [M_TRL_START time]\<rparr>"]
    by simp_all
  from assms r have "(results_values ?g2)[0 := default_results_values ?g2 ! 0,
        Suc 0 := default_results_values ?g2 ! Suc 0] = default_results_values g"
    by (simp add: N_TRIAL_RESULTS_def reset_two)
  with r show ?thesis
    by (simp add: trial_start_def Let_def N_TRIAL_RESULTS_def upt_0_2)
qed

lemma take_action_results:
  "results_values (snd (take_action p a1 a2 g)) = results_values g \<and>
   default_results_values (snd (take_action p a1 a2 g)) = default_results_values g \<and>
   next_state (snd (take_action p a1 a2 g)) = next_state g"
  by (simp add: take_action_def Let_def)

lemma communications_results:
  "results_values (snd (communications t c g)) = results_values g \<and>
   default_results_values (snd (communications t c g)) = default_results_values g \<and>
   next_state (snd (communications t c g)) = next_state g"
  by (cases c) (simp_all add: communications_def take_action_results)

lemma sketch_loop_switch:
  "sketch_loop K i m =
    (let m1 = state_dependent K (millis_loop i) (m\<lparr>glob := before_switch i m\<rparr>);
         g4 = glob m1;
         g5 = (if next_state g4 \<noteq> current_state m1
               then g4\<lparr>serial := serial g4 @
                        [M_ST_CHG (millis_loop i) (current_state m1) (next_state g4),
                         M_ST_CHG2 (millis_chg i) (current_state m1) (next_state g4)]\<rparr>
               else g4)
     in m1\<lparr>glob := g5, current_state := next_state g5\<rparr>)"
  by (simp add: sketch_loop_def before_switch_def Let_def)

lemma before_switch_frame:
  "results_values (before_switch i m) = results_values (glob m)"
  "default_results_values (before_switch i m) = default_results_values (glob m)"
  "next_state (before_switch i m) = current_state m"
  using communications_results
    [of "millis_loop i" "chat_in i" "(glob m)\<lparr>inp := i, next_state := current_state m\<rparr>"]
  by (simp_all add: before_switch_def Let_def)

lemma sketch_loop_results:
  "results_values (glob (sketch_loop K i m)) =
     results_values (glob (state_dependent K (millis_loop i) (m\<lparr>glob := before_switch i m\<rparr>)))"
  "default_results_values (glob (sketch_loop K i m)) =
     default_results_values (glob (state_dependent K (millis_loop i) (m\<lparr>glob := before_switch i m\<rparr>)))"
  "current_state (sketch_loop K i m) =
     next_state (glob (state_dependent K (millis_loop i) (m\<lparr>glob := before_switch i m\<rparr>)))"
  by (simp_all add: sketch_loop_switch Let_def)

lemma run_active_loop:
  "timer (fst s) \<noteq> 0 \<Longrightarrow> \<not> flag_stop (fst s) \<Longrightarrow> t < timer (fst s) \<Longrightarrow>
   run h t s = loop h ((fst s)\<lparr>time_of_last_call := t\<rparr>, snd s)"
  by (simp add: run_def Let_def not_le [symmetric])

lemma before_switch_NoChat:
  "chat_in i = NoChat \<Longrightarrow> param_values (before_switch i m) = param_values (glob m)"
  "inp (before_switch i m) = i"
proof -
  show "chat_in i = NoChat \<Longrightarrow> param_values (before_switch i m) = param_values (glob m)"
    by (simp add: before_switch_def communications_def Let_def)
  show "inp (before_switch i m) = i"
    by (cases "chat_in i") (simp_all add: before_switch_def communications_def take_action_def Let_def)
qed

lemma response_window_loop_pass:
  assumes "current_state m = RESPONSE_WINDOW"
    and "timer (srw m) \<noteq> 0" and "\<not> flag_stop (srw m)" and "millis_loop i < timer (srw m)"
  shows "state_dependent K (millis_loop i) (m\<lparr>glob := before_switch i m\<rparr>) =
     (let r = StateResponseWindow_loop K StateResponseWindow_set_licking_variables
                ((srw m)\<lparr>my_licking := checkLicks (aIn_update i),
                          time_of_last_call := millis_loop i\<rparr>, before_switch i m)
      in m\<lparr>glob := before_switch i m, srw := fst r, glob := snd r\<rparr>)"
proof -
  let ?u = "StateResponseWindow_update (srw m, before_switch i m)"
  have u: "?u = ((srw m)\<lparr>my_licking := checkLicks (aIn_update i)\<rparr>, before_switch i m)"
    by (simp add: StateResponseWindow_update_def before_switch_NoChat)
  have "run (StateResponseWindow_hooks K) (millis_loop i) ?u =
        loop (StateResponseWindow_hooks K) ((fst ?u)\<lparr>time_of_last_call := millis_loop i\<rparr>, snd ?u)"
    using assms u by (intro run_active_loop) simp_all
  with assms(1) u show ?thesis
    by (simp add: state_dependent_def FAKE_RESPONDER_def Let_def StateResponseWindow_hooks_def)
qed

subsection \<open>The end of the response window\<close>

text \<open>
  Claim C3, on the code. \<open>StateResponseWindow::s_finish\<close> sets the response to NOGO and
  the outcome when the response is still unset, and in that case it sets the next state.
  When the response is already set it changes nothing, the next state included: called
  with the response set and the next state at \<open>RESPONSE_WINDOW\<close>, as \<open>loop\<close> of
  the sketch leaves it, it returns its argument. Seen from start-up: terminate-on-error is
  switched off (\<open>SET TOE 2\<close> with the example macros), the trial is released, the
  mouse licks at time \<open>100\<close> on a trial without reward, which sets the response; when
  the window expires at \<open>45100\<close> the state of the machine stays \<open>RESPONSE_WINDOW\<close>, and
  the window is inactive again, ready for a new activation.
\<close>

theorem StateResponseWindow_s_finish_latched:
  "StateResponseWindow_s_finish K (obj, g\<lparr>results_values := [1, 0], next_state := RESPONSE_WINDOW\<rparr>) =
     (obj, g\<lparr>results_values := [1, 0], next_state := RESPONSE_WINDOW\<rparr>) \<and>
   current_state (sketch_loops example_macros
         [pass 10 (Cmd ''SET'' ''TOE'' ''2'') 0, pass 20 RELEASE_TRL 0, pass 30 NoChat 0,
          pass 40 NoChat 0, pass 90 NoChat 0, pass 100 NoChat 1000]
         initial_machine) = RESPONSE_WINDOW \<and>
   results_values (glob (sketch_loops example_macros
         [pass 10 (Cmd ''SET'' ''TOE'' ''2'') 0, pass 20 RELEASE_TRL 0, pass 30 NoChat 0,
          pass 40 NoChat 0, pass 90 NoChat 0, pass 100 NoChat 1000]
         initial_machine)) = [1, 0] \<and>
   timer (srw (sketch_loops example_macros
         [pass 10 (Cmd ''SET'' ''TOE'' ''2'') 0, pass 20 RELEASE_TRL 0, pass 30 NoChat 0,
          pass 40 NoChat 0, pass 90 NoChat 0, pass 100 NoChat 1000]
         initial_machine)) = 45100 \<and>
   current_state (sketch_loops example_macros
         [pass 10 (Cmd ''SET'' ''TOE'' ''2'') 0, pass 20 RELEASE_TRL 0, pass 30 NoChat 0,
          pass 40 NoChat 0, pass 90 NoChat 0, pass 100 NoChat 1000, pass 45100 NoChat 0]
         initial_machine) = RESPONSE_WINDOW \<and>
   timer (srw (sketch_loops example_macros
         [pass 10 (Cmd ''SET'' ''TOE'' ''2'') 0, pass 20 RELEASE_TRL 0, pass 30 NoChat 0,
          pass 40 NoChat 0, pass 90 NoChat 0, pass 100 NoChat 1000, pass 45100 NoChat 0]
         initial_machine)) = 0"
  by (simp add: eval_defs upt_0_11 safe_int_convert_def sscanf_ld_def scan_long_def isspace_def isdigit_def)

subsection \<open>The duration of the stimulus period\<close>

text \<open>
  Claim C4, on the code. \<open>StimPeriod::s_setup\<close> sets the duration to the parameter
  REW_DUR, not to STIMDUR: for every object and all globals the duration after \<open>s_setup\<close>
  is \<open>param_values[tpidx_REW_DUR]\<close>. With the parameters of start-up (STIMDUR \<open>2000\<close>,
  REW_DUR \<open>50\<close>) a stimulus period activated at time \<open>1000\<close> gets the deadline \<open>1050\<close>.
\<close>

theorem StimPeriod_deadline_REW_DUR:
  "duration (fst (StimPeriod_s_setup (obj, g))) = param_values g ! tpidx_REW_DUR \<and>
   param_values initial_globals ! tpidx_STIM_DUR = 2000 \<and>
   param_values initial_globals ! tpidx_REW_DUR = 50 \<and>
   timer (fst (run StimPeriod_hooks 1000 (stim_period initial_machine, initial_globals))) = 1050"
  by (simp add: eval_defs)

subsection \<open>Licks during the stimulus period\<close>

text \<open>
  Nothing sets \<open>licked\<close> but \<open>s_setup\<close>, which clears it. So a call of \<open>run\<close> on a
  stimulus period that is inactive, or whose \<open>licked\<close> is \<open>0\<close>, leaves it so, and
  it either leaves the next state alone or sets it to \<open>RESPONSE_WINDOW\<close>.
\<close>

lemma StimPeriod_run_licked:
  assumes "timer (fst s) = 0 \<or> licked (fst s) = 0"
  shows "(timer (fst (run StimPeriod_hooks t s)) = 0 \<or> licked (fst (run StimPeriod_hooks t s)) = 0) \<and>
         (next_state (snd (run StimPeriod_hooks t s)) = next_state (snd s) \<or>
          next_state (snd (run StimPeriod_hooks t s)) = RESPONSE_WINDOW)"
  using assms
  by (auto simp add: run_def StimPeriod_hooks_def StimPeriod_s_setup_def StimPeriod_loop_def
      StimPeriod_s_finish_def NUM_DEVICES_def upt_0_2 Let_def)

text \<open>The error time-out lasts for the parameter TO and leads to the inter-trial interval.\<close>

lemma StateErrorTimeout_transition:
  "duration (fst (StateErrorTimeout_s_setup s)) = param_values (snd s) ! tpidx_ERROR_TIMEOUT \<and>
   next_state (snd (StateErrorTimeout_s_finish s)) = INTER_TRIAL_INTERVAL"
  by (simp add: StateErrorTimeout_s_setup_def StateErrorTimeout_s_finish_def)

text \<open>
  Claim C5, on the code. From start-up the trial is released and started; the stimulus
  period is activated at time \<open>30\<close> and the lick detector reads \<open>1000\<close>, above the
  threshold \<open>900\<close>, on every pass of the period. The machine is still in \<open>STIM_PERIOD\<close>
  after the pass at \<open>50\<close>, and the pass at \<open>80\<close>, on which the period ends, takes it to
  \<open>RESPONSE_WINDOW\<close>, not to \<open>ERROR\<close>.
\<close>

theorem StimPeriod_lick_no_ERROR:
  "checkLicks 1000 \<and>
   current_state (sketch_loops example_macros
         [pass 10 RELEASE_TRL 0, pass 20 NoChat 0, pass 30 NoChat 1000, pass 50 NoChat 1000]
         initial_machine) = STIM_PERIOD \<and>
   current_state (sketch_loops example_macros
         [pass 10 RELEASE_TRL 0, pass 20 NoChat 0, pass 30 NoChat 1000, pass 50 NoChat 1000,
          pass 80 NoChat 1000] initial_machine) = RESPONSE_WINDOW"
  by (simp add: eval_defs upt_0_11)

subsection \<open>The response window: maximum rewards reached\<close>

lemma srw_loop_max_rewards:
  "sint (param_values g ! tpidx_MRT) \<le> uint (my_rewards_this_trial obj) \<Longrightarrow>
   StateResponseWindow_loop K slv (obj, g) =
     (obj\<lparr>flag_stop := True\<rparr>, g\<lparr>next_state := INTER_TRIAL_INTERVAL\<rparr>)"
  by (simp add: StateResponseWindow_loop_def)

lemma srw_arm_frame:
  "next_state (snd (arm (StateResponseWindow_hooks K) t s)) = next_state (snd s) \<and>
   (flag_stop (fst (arm (StateResponseWindow_hooks K) t s)) \<longrightarrow> flag_stop (fst s))"
  by (simp add: arm_def StateResponseWindow_hooks_def StateResponseWindow_s_setup_def Let_def)

text \<open>
  Claim C6. When \<open>StateResponseWindow::loop\<close> runs with the rewards counter at or above
  MRT, it sets the stop flag of its object and the next state \<open>INTER_TRIAL_INTERVAL\<close>, and
  nothing else. On a pass of the main loop in \<open>RESPONSE_WINDOW\<close> with the window active
  and not expired (no message pending), the machine therefore leaves for
  \<open>INTER_TRIAL_INTERVAL\<close> before the duration has elapsed. What \<open>run\<close> does before it
  calls \<open>loop\<close> or \<open>s_finish\<close> (the time stamp, \<open>s_setup\<close>, the timer) never sets the
  flag and never writes the next state, and neither does \<open>update\<close>.
\<close>

theorem StateResponseWindow_max_rewards_stop:
  "(sint (param_values g ! tpidx_MRT) \<le> uint (my_rewards_this_trial obj) \<longrightarrow>
      StateResponseWindow_loop K slv (obj, g) =
        (obj\<lparr>flag_stop := True\<rparr>, g\<lparr>next_state := INTER_TRIAL_INTERVAL\<rparr>)) \<and>
   (current_state m = RESPONSE_WINDOW \<and> chat_in i = NoChat \<and>
    timer (srw m) \<noteq> 0 \<and> \<not> flag_stop (srw m) \<and> millis_loop i < timer (srw m) \<and>
    sint (param_values (glob m) ! tpidx_MRT) \<le> uint (my_rewards_this_trial (srw m)) \<longrightarrow>
      current_state (sketch_loop K i m) = INTER_TRIAL_INTERVAL \<and>
      flag_stop (srw (sketch_loop K i m))) \<and>
   next_state (snd (arm (StateResponseWindow_hooks K) t s)) = next_state (snd s) \<and>
   (flag_stop (fst (arm (StateResponseWindow_hooks K) t s)) \<longrightarrow> flag_stop (fst s)) \<and>
   next_state (snd (StateResponseWindow_update s)) = next_state (snd s) \<and>
   flag_stop (fst (StateResponseWindow_update s)) = flag_stop (fst s)"
proof -
  have a: "sint (param_values g ! tpidx_MRT) \<le> uint (my_rewards_this_trial obj) \<longrightarrow>
      StateResponseWindow_loop K slv (obj, g) =
        (obj\<lparr>flag_stop := True\<rparr>, g\<lparr>next_state := INTER_TRIAL_INTERVAL\<rparr>)"
    by (simp add: srw_loop_max_rewards)
  have b: "current_state (sketch_loop K i m) = INTER_TRIAL_INTERVAL \<and>
      flag_stop (srw (sketch_loop K i m))"
    if cs: "current_state m = RESPONSE_WINDOW" and nc: "chat_in i = NoChat"
      and act: "timer (srw m) \<noteq> 0" "\<not> flag_stop (srw m)" "millis_loop i < timer (srw m)"
      and mrt: "sint (param_values (glob m) ! tpidx_MRT) \<le> uint (my_rewards_this_trial (srw m))"
  proof -
    let ?obj = "(srw m)\<lparr>my_licking := checkLicks (aIn_update i), time_of_last_call := millis_loop i\<rparr>"
    have "StateResponseWindow_loop K StateResponseWindow_set_licking_variables (?obj, before_switch i m) =
          (?obj\<lparr>flag_stop := True\<rparr>, (before_switch i m)\<lparr>next_state := INTER_TRIAL_INTERVAL\<rparr>)"
      using mrt nc by (intro srw_loop_max_rewards) (simp add: before_switch_NoChat)
    with response_window_loop_pass [OF cs act, of K] show ?thesis
      by (simp add: sketch_loop_switch Let_def)
  qed
  have c: "next_state (snd (StateResponseWindow_update s)) = next_state (snd s) \<and>
     flag_stop (fst (StateResponseWindow_update s)) = flag_stop (fst s)"
    by (simp add: StateResponseWindow_update_def)
  from a b c srw_arm_frame [of K t s] show ?thesis by simp
qed

theorem StateResponseWindow_max_rewards_stop_witness:
  "current_state (sketch_loop example_macros (pass 200 NoChat 0)
      (initial_machine\<lparr>current_state := RESPONSE_WINDOW,
          srw := (srw initial_machine)\<lparr>timer := 45100, my_rewards_this_trial := 1\<rparr>\<rparr>))
     = INTER_TRIAL_INTERVAL \<and>
   flag_stop (srw (sketch_loop example_macros (pass 200 NoChat 0)
      (initial_machine\<lparr>current_state := RESPONSE_WINDOW,
          srw := (srw initial_machine)\<lparr>timer := 45100, my_rewards_this_trial := 1\<rparr>\<rparr>))) \<and>
   sint (param_values initial_globals ! tpidx_MRT) \<le> uint (1 :: c_uint) \<and>
   (200 :: ulong) < 45100"
proof -
  let ?m = "initial_machine\<lparr>current_state := RESPONSE_WINDOW,
          srw := (srw initial_machine)\<lparr>timer := 45100, my_rewards_this_trial := 1\<rparr>\<rparr>"
  let ?i = "pass 200 NoChat 0"
  have h: "current_state ?m = RESPONSE_WINDOW \<and> chat_in ?i = NoChat \<and>
    timer (srw ?m) \<noteq> 0 \<and> \<not> flag_stop (srw ?m) \<and> millis_loop ?i < timer (srw ?m) \<and>
    sint (param_values (glob ?m) ! tpidx_MRT) \<le> uint (my_rewards_this_trial (srw ?m))"
    by (simp add: initial_machine_def initial_globals_def initial_param_values_def pass_def tpidx_defs)
  have e: "sint (param_values initial_globals ! tpidx_MRT) \<le> uint (1 :: c_uint)" "(200 :: ulong) < 45100"
    by (simp_all add: initial_globals_def initial_param_values_def tpidx_defs)
  from StateResponseWindow_max_rewards_stop [where m = ?m and i = ?i and K = example_macros] h e
  show ?thesis by blast
qed

subsection \<open>The response window: error made, terminate-on-error off\<close>

lemma srw_loop_no_TOE:
  assumes "\<not> sint (param_values g ! tpidx_MRT) \<le> uint (my_rewards_this_trial obj)"
    and "slv g"
    and "param_values g ! tpidx_REW \<noteq> GO K"
    and "param_values g ! tpidx_TERMINATE_ON_ERR = TRIAL_SPEAK_NO K"
  shows "StateResponseWindow_loop K slv (obj, g) =
           (obj, if results_values g ! tridx_RESPONSE = 0
                 then g\<lparr>results_values := (results_values g)[tridx_RESPONSE := GO K]\<rparr> else g)"
  using assms by (simp add: StateResponseWindow_loop_def Let_def)

text \<open>
  Claim C9. When \<open>StateResponseWindow::loop\<close> gets past the test of the maximum rewards
  and finds a lick, on a trial whose REW is not GO and with TOE equal to
  \<open>__TRIAL_SPEAK_NO\<close>, it changes nothing but the response, which it sets to GO if it
  was unset: the next state and the outcome are as before. On such a pass of the main
  loop (window active and not expired, no message pending) the machine stays in
  \<open>RESPONSE_WINDOW\<close>.
\<close>

theorem StateResponseWindow_no_TOE_remains:
  "(\<not> sint (param_values g ! tpidx_MRT) \<le> uint (my_rewards_this_trial obj) \<and> slv g \<and>
    param_values g ! tpidx_REW \<noteq> GO K \<and>
    param_values g ! tpidx_TERMINATE_ON_ERR = TRIAL_SPEAK_NO K \<longrightarrow>
      StateResponseWindow_loop K slv (obj, g) =
           (obj, if results_values g ! tridx_RESPONSE = 0
                 then g\<lparr>results_values := (results_values g)[tridx_RESPONSE := GO K]\<rparr> else g) \<and>
      next_state (snd (StateResponseWindow_loop K slv (obj, g))) = next_state g \<and>
      results_values (snd (StateResponseWindow_loop K slv (obj, g))) ! tridx_OUTCOME =
           results_values g ! tridx_OUTCOME) \<and>
   (current_state m = RESPONSE_WINDOW \<and> chat_in i = NoChat \<and>
    timer (srw m) \<noteq> 0 \<and> \<not> flag_stop (srw m) \<and> millis_loop i < timer (srw m) \<and>
    \<not> sint (param_values (glob m) ! tpidx_MRT) \<le> uint (my_rewards_this_trial (srw m)) \<and>
    lickThresh < aIn_slv i \<and>
    param_values (glob m) ! tpidx_REW \<noteq> GO K \<and>
    param_values (glob m) ! tpidx_TERMINATE_ON_ERR = TRIAL_SPEAK_NO K \<longrightarrow>
      current_state (sketch_loop K i m) = RESPONSE_WINDOW \<and>
      results_values (glob (sketch_loop K i m)) ! tridx_OUTCOME =
        results_values (glob m) ! tridx_OUTCOME)"
proof -
  have a: "StateResponseWindow_loop K slv (obj, g) =
           (obj, if results_values g ! tridx_RESPONSE = 0
                 then g\<lparr>results_values := (results_values g)[tridx_RESPONSE := GO K]\<rparr> else g) \<and>
      next_state (snd (StateResponseWindow_loop K slv (obj, g))) = next_state g \<and>
      results_values (snd (StateResponseWindow_loop K slv (obj, g))) ! tridx_OUTCOME =
           results_values g ! tridx_OUTCOME"
    if "\<not> sint (param_values g ! tpidx_MRT) \<le> uint (my_rewards_this_trial obj)" "slv g"
      "param_values g ! tpidx_REW \<noteq> GO K"
      "param_values g ! tpidx_TERMINATE_ON_ERR = TRIAL_SPEAK_NO K"
    using srw_loop_no_TOE [of g obj slv K] that by (simp add: tridx_defs)
  have b: "current_state (sketch_loop K i m) = RESPONSE_WINDOW \<and>
      results_values (glob (sketch_loop K i m)) ! tridx_OUTCOME =
        results_values (glob m) ! tridx_OUTCOME"
    if cs: "current_state m = RESPONSE_WINDOW" and nc: "chat_in i = NoChat"
      and act: "timer (srw m) \<noteq> 0" "\<not> flag_stop (srw m)" "millis_loop i < timer (srw m)"
      and mrt: "\<not> sint (param_values (glob m) ! tpidx_MRT) \<le> uint (my_rewards_this_trial (srw m))"
      and lick: "lickThresh < aIn_slv i"
      and rew: "param_values (glob m) ! tpidx_REW \<noteq> GO K"
      and toe: "param_values (glob m) ! tpidx_TERMINATE_ON_ERR = TRIAL_SPEAK_NO K"
  proof -
    let ?obj = "(srw m)\<lparr>my_licking := checkLicks (aIn_update i), time_of_last_call := millis_loop i\<rparr>"
    let ?g = "before_switch i m"
    have "StateResponseWindow_loop K StateResponseWindow_set_licking_variables (?obj, ?g) =
           (?obj, if results_values ?g ! tridx_RESPONSE = 0
                 then ?g\<lparr>results_values := (results_values ?g)[tridx_RESPONSE := GO K]\<rparr> else ?g)"
      using mrt lick rew toe nc
      by (intro srw_loop_no_TOE)
         (simp_all add: before_switch_NoChat StateResponseWindow_set_licking_variables_def)
    with response_window_loop_pass [OF cs act, of K] cs show ?thesis
      by (simp add: sketch_loop_switch Let_def before_switch_frame tridx_defs)
  qed
  from a b show ?thesis by blast
qed

theorem StateResponseWindow_no_TOE_remains_witness:
  "current_state (sketch_loop example_macros (pass 200 NoChat 1000)
      (initial_machine\<lparr>current_state := RESPONSE_WINDOW,
          srw := (srw initial_machine)\<lparr>timer := 45100\<rparr>,
          glob := initial_globals\<lparr>param_values := initial_param_values[tpidx_TERMINATE_ON_ERR := 2]\<rparr>\<rparr>))
     = RESPONSE_WINDOW \<and>
   results_values (glob (sketch_loop example_macros (pass 200 NoChat 1000)
      (initial_machine\<lparr>current_state := RESPONSE_WINDOW,
          srw := (srw initial_machine)\<lparr>timer := 45100\<rparr>,
          glob := initial_globals\<lparr>param_values := initial_param_values[tpidx_TERMINATE_ON_ERR := 2]\<rparr>\<rparr>)))
      ! tridx_OUTCOME = 0 \<and>
   lickThresh < aIn_slv (pass 200 NoChat 1000) \<and>
   initial_param_values[tpidx_TERMINATE_ON_ERR := 2] ! tpidx_REW \<noteq> GO example_macros \<and>
   initial_param_values[tpidx_TERMINATE_ON_ERR := 2] ! tpidx_TERMINATE_ON_ERR = TRIAL_SPEAK_NO example_macros"
proof -
  let ?m = "initial_machine\<lparr>current_state := RESPONSE_WINDOW,
          srw := (srw initial_machine)\<lparr>timer := 45100\<rparr>,
          glob := initial_globals\<lparr>param_values := initial_param_values[tpidx_TERMINATE_ON_ERR := 2]\<rparr>\<rparr>"
  let ?i = "pass 200 NoChat 1000"
  have h: "current_state ?m = RESPONSE_WINDOW \<and> chat_in ?i = NoChat \<and>
    timer (srw ?m) \<noteq> 0 \<and> \<not> flag_stop (srw ?m) \<and> millis_loop ?i < timer (srw ?m) \<and>
    \<not> sint (param_values (glob ?m) ! tpidx_MRT) \<le> uint (my_rewards_this_trial (srw ?m)) \<and>
    lickThresh < aIn_slv ?i \<and>
    param_values (glob ?m) ! tpidx_REW \<noteq> GO example_macros \<and>
    param_values (glob ?m) ! tpidx_TERMINATE_ON_ERR = TRIAL_SPEAK_NO example_macros"
    by (simp add: initial_machine_def initial_globals_def initial_param_values_def pass_def
        tpidx_defs lickThresh_def example_macros_def)
  have e: "lickThresh < aIn_slv ?i"
    "initial_param_values[tpidx_TERMINATE_ON_ERR := 2] ! tpidx_REW \<noteq> GO example_macros"
    "initial_param_values[tpidx_TERMINATE_ON_ERR := 2] ! tpidx_TERMINATE_ON_ERR = TRIAL_SPEAK_NO example_macros"
    "results_values (glob ?m) ! tridx_OUTCOME = 0"
    by (simp_all add: initial_param_values_def pass_def tpidx_defs lickThresh_def example_macros_def
          initial_globals_def tridx_defs)
  from StateResponseWindow_no_TOE_remains [where m = ?m and i = ?i and K = example_macros,
      THEN conjunct2] h
  have "current_state (sketch_loop example_macros ?i ?m) = RESPONSE_WINDOW \<and>
      results_values (glob (sketch_loop example_macros ?i ?m)) ! tridx_OUTCOME =
        results_values (glob ?m) ! tridx_OUTCOME"
    by blast
  with e show ?thesis by simp
qed

subsection \<open>The result table over a trial\<close>

lemma run_latched:
  assumes "\<And>s. latched v (snd s) \<Longrightarrow> latched v (snd (s_setup h s))"
    and "\<And>s. latched v (snd s) \<Longrightarrow> latched v (snd (loop h s))"
    and "\<And>s. latched v (snd s) \<Longrightarrow> latched v (snd (s_finish h s))"
    and "latched v (snd s)"
  shows "latched v (snd (run h t s))"
  using assms by (simp add: run_def Let_def)

lemma fold_dev_latched:
  "latched v (fold (\<lambda>i gl. gl\<lparr>dev_calls := dev_calls gl @ [f i]\<rparr>) xs g) = latched v g"
  by (induction xs arbitrary: g) (simp_all add: latched_def)

lemma fold_TRLR_latched:
  "latched v (fold (\<lambda>i gl. gl\<lparr>serial := serial gl @ [f i gl]\<rparr>) xs g) = latched v g"
  by (induction xs arbitrary: g) (simp_all add: latched_def)

lemma StimPeriod_latched: "latched v (snd s) \<Longrightarrow> latched v (snd (run StimPeriod_hooks t s))"
proof (rule run_latched)
  fix s :: "'a StimPeriod_scheme \<times> globals"
  assume l: "latched v (snd s)"
  show "latched v (snd (s_setup StimPeriod_hooks s))"
    using l by (simp add: StimPeriod_hooks_def StimPeriod_s_setup_def Let_def)
  show "latched v (snd (loop StimPeriod_hooks s))"
    using l fold_dev_latched [of v "\<lambda>i. Dev_loop i (devFcns (fst s) ! i)" "[0..<NUM_DEVICES]" "snd s"]
    by (simp add: StimPeriod_hooks_def StimPeriod_loop_def Let_def) (simp add: latched_def)
  show "latched v (snd (s_finish StimPeriod_hooks s))"
    using l fold_dev_latched [of v "\<lambda>i. Dev_s_finish i" "[0..<NUM_DEVICES]" "snd s"]
    by (simp add: StimPeriod_hooks_def StimPeriod_s_finish_def Let_def) (simp add: latched_def)
qed

lemma srw_loop_latched:
  "latched v (snd s) \<Longrightarrow> latched v (snd (StateResponseWindow_loop K slv s))"
  by (simp add: StateResponseWindow_loop_def Let_def latched_def tridx_defs)

lemma srw_s_finish_latched:
  "latched v (snd s) \<Longrightarrow> latched v (snd (StateResponseWindow_s_finish K s))"
  by (simp add: StateResponseWindow_s_finish_def Let_def latched_def tridx_defs)

lemma srw_latched:
  "latched v (snd s) \<Longrightarrow> latched v (snd (run (StateResponseWindow_hooks K) t s))"
  by (rule run_latched)
     (simp_all add: StateResponseWindow_hooks_def srw_loop_latched srw_s_finish_latched
       StateResponseWindow_s_setup_def)

lemma sfrw_latched:
  "latched v (snd s) \<Longrightarrow> latched v (snd (run (StateFakeResponseWindow_hooks K) t s))"
  by (rule run_latched)
     (simp_all add: StateFakeResponseWindow_hooks_def srw_loop_latched srw_s_finish_latched
       StateResponseWindow_s_setup_def)

lemma ITI_latched:
  "latched v (snd s) \<Longrightarrow> latched v (snd (run StateInterTrialInterval_hooks t s))"
proof (rule run_latched)
  fix s :: "'a TimedState_scheme \<times> globals"
  assume l: "latched v (snd s)"
  show "latched v (snd (s_setup StateInterTrialInterval_hooks s))"
    using l fold_TRLR_latched [of v _ "[0..<N_TRIAL_RESULTS]" "snd s"]
    by (simp add: StateInterTrialInterval_hooks_def StateInterTrialInterval_s_setup_def Let_def)
  show "latched v (snd (loop StateInterTrialInterval_hooks s))"
    using l by (simp add: StateInterTrialInterval_hooks_def)
  show "latched v (snd (s_finish StateInterTrialInterval_hooks s))"
    using l by (simp add: StateInterTrialInterval_hooks_def StateInterTrialInterval_s_finish_def latched_def)
qed

lemma PRP_latched:
  "latched v (snd s) \<Longrightarrow> latched v (snd (run StatePostRewardPause_hooks t s))"
  by (rule run_latched)
     (simp_all add: StatePostRewardPause_hooks_def StatePostRewardPause_s_finish_def latched_def)

lemma ET_latched:
  "latched v (snd s) \<Longrightarrow> latched v (snd (run StateErrorTimeout_hooks t s))"
  by (rule run_latched)
     (simp_all add: StateErrorTimeout_hooks_def StateErrorTimeout_s_finish_def
       StateErrorTimeout_s_setup_def latched_def)

lemma state_dependent_latched:
  assumes "current_state m \<noteq> TRIAL_START" and "latched v (glob m)"
  shows "latched v (glob (state_dependent K time m))"
proof (cases "current_state m")
  case WAIT_TO_START_TRIAL
  with assms show ?thesis by (simp add: state_dependent_def latched_def)
next
  case TRIAL_START
  with assms show ?thesis by simp
next
  case STIM_PERIOD
  with assms StimPeriod_latched [of v "(stim_period m, glob m)" time]
  show ?thesis by (simp add: state_dependent_def Let_def)
next
  case RESPONSE_WINDOW
  have u: "latched v (snd (StateResponseWindow_update (x, glob m)))" for x :: StateResponseWindow
    using assms by (simp add: StateResponseWindow_update_def)
  from RESPONSE_WINDOW srw_latched [OF u, of K time "srw m"] sfrw_latched [OF u, of K time "sfrw m"]
  show ?thesis by (simp add: state_dependent_def Let_def)
next
  case REWARD
  with assms show ?thesis by (simp add: state_dependent_def state_reward_def latched_def)
next
  case POST_REWARD_PAUSE
  with assms PRP_latched [of v "(state_post_reward_pause m, glob m)" time]
  show ?thesis by (simp add: state_dependent_def Let_def)
next
  case ERROR
  with assms ET_latched [of v "(state_error_timeout m, glob m)" time]
  show ?thesis by (simp add: state_dependent_def Let_def)
next
  case INTER_TRIAL_INTERVAL
  with assms ITI_latched [of v "(state_inter_trial_interval m, glob m)" time]
  show ?thesis by (simp add: state_dependent_def Let_def)
qed

lemma state_dependent_current: "current_state (state_dependent K time m) = current_state m"
  by (cases "current_state m") (simp_all add: state_dependent_def Let_def)

text \<open>
  Claim C8. A pass of the main loop in \<open>TRIAL_START\<close> leaves the result table equal to
  the default results (both tables have \<open>N_TRIAL_RESULTS\<close> entries). A pass in any other
  state, those of the response window included, does not change a response that is set:
  a nonzero \<open>results_values[tridx_RESPONSE]\<close> is the same after the pass.
\<close>

theorem results_reset_and_latch:
  "(current_state m = TRIAL_START \<and>
    length (results_values (glob m)) = N_TRIAL_RESULTS \<and>
    length (default_results_values (glob m)) = N_TRIAL_RESULTS \<longrightarrow>
      results_values (glob (sketch_loop K i m)) = default_results_values (glob m) \<and>
      default_results_values (glob (sketch_loop K i m)) = default_results_values (glob m)) \<and>
   (current_state m \<noteq> TRIAL_START \<and> results_values (glob m) ! tridx_RESPONSE \<noteq> 0 \<longrightarrow>
      results_values (glob (sketch_loop K i m)) ! tridx_RESPONSE =
        results_values (glob m) ! tridx_RESPONSE)"
proof -
  let ?g3 = "before_switch i m"
  have a: "results_values (glob (sketch_loop K i m)) = default_results_values (glob m) \<and>
      default_results_values (glob (sketch_loop K i m)) = default_results_values (glob m)"
    if "current_state m = TRIAL_START" "length (results_values (glob m)) = N_TRIAL_RESULTS"
       "length (default_results_values (glob m)) = N_TRIAL_RESULTS"
  proof -
    from that have "results_values (trial_start (millis_loop i) ?g3) = default_results_values ?g3 \<and>
         default_results_values (trial_start (millis_loop i) ?g3) = default_results_values ?g3"
      by (intro trial_start_results) (simp_all add: before_switch_frame)
    with that(1) show ?thesis
      by (simp add: sketch_loop_results state_dependent_def before_switch_frame)
  qed
  have b: "results_values (glob (sketch_loop K i m)) ! tridx_RESPONSE =
        results_values (glob m) ! tridx_RESPONSE"
    if "current_state m \<noteq> TRIAL_START" "results_values (glob m) ! tridx_RESPONSE \<noteq> 0"
  proof -
    let ?v = "results_values (glob m) ! tridx_RESPONSE"
    from that have "latched ?v (glob (m\<lparr>glob := ?g3\<rparr>))"
      by (simp add: latched_def before_switch_frame)
    with that(1) have "latched ?v (glob (state_dependent K (millis_loop i) (m\<lparr>glob := ?g3\<rparr>)))"
      by (intro state_dependent_latched) simp_all
    then show ?thesis
      by (simp add: sketch_loop_results latched_def)
  qed
  from a b show ?thesis by blast
qed

theorem results_reset_and_latch_witness:
  "results_values (glob (sketch_loop example_macros (pass 20 NoChat 0)
      (initial_machine\<lparr>current_state := TRIAL_START,
          glob := initial_globals\<lparr>results_values := [1, 4]\<rparr>\<rparr>))) = [0, 0] \<and>
   results_values (glob (sketch_loop example_macros (pass 200 NoChat 1000)
      (initial_machine\<lparr>current_state := RESPONSE_WINDOW,
          glob := initial_globals\<lparr>results_values := [1, 0]\<rparr>\<rparr>))) ! tridx_RESPONSE = 1"
proof -
  let ?m1 = "initial_machine\<lparr>current_state := TRIAL_START,
          glob := initial_globals\<lparr>results_values := [1, 4]\<rparr>\<rparr>"
  let ?m2 = "initial_machine\<lparr>current_state := RESPONSE_WINDOW,
          glob := initial_globals\<lparr>results_values := [1, 0]\<rparr>\<rparr>"
  have h1: "current_state ?m1 = TRIAL_START \<and>
    length (results_values (glob ?m1)) = N_TRIAL_RESULTS \<and>
    length (default_results_values (glob ?m1)) = N_TRIAL_RESULTS"
    "default_results_values (glob ?m1) = [0, 0]"
    by (simp_all add: initial_globals_def N_TRIAL_RESULTS_def)
  have h2: "current_state ?m2 \<noteq> TRIAL_START \<and> results_values (glob ?m2) ! tridx_RESPONSE \<noteq> 0"
    "results_values (glob ?m2) ! tridx_RESPONSE = 1"
    by (simp_all add: tridx_defs)
  from results_reset_and_latch [of ?m1 example_macros "pass 20 NoChat 0"]
       results_reset_and_latch [of ?m2 example_macros "pass 200 NoChat 1000"] h1 h2
  show ?thesis by simp
qed

text \<open>
  The hypotheses on the two tables hold throughout: whatever the passes since start-up,
  the result table has \<open>N_TRIAL_RESULTS\<close> entries and the default results are \<open>0, 0\<close>.
\<close>

lemma run_preserves:
  assumes "\<And>s. P (snd s) \<Longrightarrow> P (snd (s_setup h s))"
    and "\<And>s. P (snd s) \<Longrightarrow> P (snd (loop h s))"
    and "\<And>s. P (snd s) \<Longrightarrow> P (snd (s_finish h s))"
    and "P (snd s)"
  shows "P (snd (run h t s))"
  using assms by (simp add: run_def Let_def)

lemma fold_dev_tables:
  "tables d (fold (\<lambda>i gl. gl\<lparr>dev_calls := dev_calls gl @ [f i]\<rparr>) xs g) = tables d g"
  by (induction xs arbitrary: g) (simp_all add: tables_def)

lemma fold_serial_tables:
  "tables d (fold (\<lambda>i gl. if c i then gl\<lparr>serial := serial gl @ [f i gl]\<rparr> else gl) xs g) = tables d g"
  by (induction xs arbitrary: g) (simp_all add: tables_def)

lemma fold_reset_tables:
  "tables d (fold (\<lambda>i gl. gl\<lparr>results_values :=
                                (results_values gl)[i := default_results_values gl ! i]\<rparr>) xs g) = tables d g"
  by (induction xs arbitrary: g) (simp_all add: tables_def)

lemma trial_start_tables: "tables d g \<Longrightarrow> tables d (trial_start time g)"
proof -
  assume t: "tables d g"
  let ?g1 = "g\<lparr>serial := serial g @ [M_TRL_START time]\<rparr>"
  let ?g2 = "fold (\<lambda>i gl. if param_report_ET ! i
                            then gl\<lparr>serial := serial gl @
                                   [M_TRLP time (param_abbrevs ! i) (param_values gl ! i)]\<rparr>
                            else gl) [0..<N_TRIAL_PARAMS] ?g1"
  let ?g3 = "fold (\<lambda>i gl. gl\<lparr>results_values :=
                                (results_values gl)[i := default_results_values gl ! i]\<rparr>)
                [0..<N_TRIAL_RESULTS] ?g2"
  have "tables d ?g1" using t by (simp add: tables_def)
  then have "tables d ?g2" by (simp only: fold_serial_tables)
  then have "tables d ?g3" by (simp only: fold_reset_tables)
  then have "tables d (?g3\<lparr>next_state := STIM_PERIOD\<rparr>)" by (simp add: tables_def)
  then show ?thesis by (simp only: trial_start_def Let_def)
qed

lemma StimPeriod_tables: "tables d (snd s) \<Longrightarrow> tables d (snd (run StimPeriod_hooks t s))"
proof (rule run_preserves)
  fix s :: "'a StimPeriod_scheme \<times> globals"
  assume l: "tables d (snd s)"
  show "tables d (snd (s_setup StimPeriod_hooks s))"
    using l by (simp add: StimPeriod_hooks_def StimPeriod_s_setup_def Let_def)
  show "tables d (snd (loop StimPeriod_hooks s))"
    using l fold_dev_tables [of d "\<lambda>i. Dev_loop i (devFcns (fst s) ! i)" "[0..<NUM_DEVICES]" "snd s"]
    by (simp add: StimPeriod_hooks_def StimPeriod_loop_def Let_def) (simp add: tables_def)
  show "tables d (snd (s_finish StimPeriod_hooks s))"
    using l fold_dev_tables [of d "\<lambda>i. Dev_s_finish i" "[0..<NUM_DEVICES]" "snd s"]
    by (simp add: StimPeriod_hooks_def StimPeriod_s_finish_def Let_def) (simp add: tables_def)
qed

lemma srw_tables:
  "tables d (snd s) \<Longrightarrow> tables d (snd (run (StateResponseWindow_hooks K) t s))"
  "tables d (snd s) \<Longrightarrow> tables d (snd (run (StateFakeResponseWindow_hooks K) t s))"
  by (rule run_preserves;
      simp add: StateResponseWindow_hooks_def StateFakeResponseWindow_hooks_def
        StateResponseWindow_s_setup_def StateResponseWindow_loop_def
        StateResponseWindow_s_finish_def Let_def tables_def)+

lemma idle_tables:
  "tables d (snd s) \<Longrightarrow> tables d (snd (run StatePostRewardPause_hooks t s))"
  "tables d (snd s) \<Longrightarrow> tables d (snd (run StateErrorTimeout_hooks t s))"
  by (rule run_preserves;
      simp add: StatePostRewardPause_hooks_def StatePostRewardPause_s_finish_def
        StateErrorTimeout_hooks_def StateErrorTimeout_s_finish_def
        StateErrorTimeout_s_setup_def tables_def)+

lemma ITI_tables:
  "tables d (snd s) \<Longrightarrow> tables d (snd (run StateInterTrialInterval_hooks t s))"
proof (rule run_preserves)
  fix s :: "'a TimedState_scheme \<times> globals"
  assume l: "tables d (snd s)"
  show "tables d (snd (s_setup StateInterTrialInterval_hooks s))"
    using l fold_serial_tables [of d "\<lambda>i. True" _ "[0..<N_TRIAL_RESULTS]" "snd s"]
    by (simp add: StateInterTrialInterval_hooks_def StateInterTrialInterval_s_setup_def Let_def)
  show "tables d (snd (loop StateInterTrialInterval_hooks s))"
    using l by (simp add: StateInterTrialInterval_hooks_def)
  show "tables d (snd (s_finish StateInterTrialInterval_hooks s))"
    using l by (simp add: StateInterTrialInterval_hooks_def StateInterTrialInterval_s_finish_def tables_def)
qed

lemma state_dependent_tables:
  assumes "tables d (glob m)"
  shows "tables d (glob (state_dependent K time m))"
proof (cases "current_state m")
  case WAIT_TO_START_TRIAL
  with assms show ?thesis by (simp add: state_dependent_def tables_def)
next
  case TRIAL_START
  with assms trial_start_tables [of d "glob m" time] show ?thesis
    by (simp add: state_dependent_def)
next
  case STIM_PERIOD
  with assms StimPeriod_tables [of d "(stim_period m, glob m)" time]
  show ?thesis by (simp add: state_dependent_def Let_def)
next
  case RESPONSE_WINDOW
  have u: "tables d (snd (StateResponseWindow_update (x, glob m)))" for x :: StateResponseWindow
    using assms by (simp add: StateResponseWindow_update_def)
  from RESPONSE_WINDOW srw_tables(1) [OF u, of K time "srw m"] srw_tables(2) [OF u, of K time "sfrw m"]
  show ?thesis by (simp add: state_dependent_def Let_def)
next
  case REWARD
  with assms show ?thesis by (simp add: state_dependent_def state_reward_def tables_def)
next
  case POST_REWARD_PAUSE
  with assms idle_tables(1) [of d "(state_post_reward_pause m, glob m)" time]
  show ?thesis by (simp add: state_dependent_def Let_def)
next
  case ERROR
  with assms idle_tables(2) [of d "(state_error_timeout m, glob m)" time]
  show ?thesis by (simp add: state_dependent_def Let_def)
next
  case INTER_TRIAL_INTERVAL
  with assms ITI_tables [of d "(state_inter_trial_interval m, glob m)" time]
  show ?thesis by (simp add: state_dependent_def Let_def)
qed

lemma sketch_loop_tables: "tables d (glob m) \<Longrightarrow> tables d (glob (sketch_loop K i m))"
proof -
  assume t: "tables d (glob m)"
  then have "tables d (glob (m\<lparr>glob := before_switch i m\<rparr>))"
    by (simp add: tables_def before_switch_frame)
  then have "tables d (glob (state_dependent K (millis_loop i) (m\<lparr>glob := before_switch i m\<rparr>)))"
    by (rule state_dependent_tables)
  then show ?thesis by (simp add: tables_def sketch_loop_results)
qed

lemma sketch_loops_tables: "tables d (glob m) \<Longrightarrow> tables d (glob (sketch_loops K is m))"
  by (induction "is" arbitrary: m) (simp_all add: sketch_loop_tables)

lemma tables_from_start_up:
  "length (results_values (glob (sketch_loops K is initial_machine))) = N_TRIAL_RESULTS \<and>
   default_results_values (glob (sketch_loops K is initial_machine)) = [0, 0]"
proof -
  have "tables [0, 0] (glob initial_machine)"
    by (simp add: tables_def initial_machine_def initial_globals_def)
  from sketch_loops_tables [OF this, of K "is"] show ?thesis
    by (simp add: tables_def N_TRIAL_RESULTS_def)
qed

section \<open>Properties of the SET command\<close>

lemma sscanf_zero: "sscanf_ld ''0'' = (1, 0)"
  by (simp add: sscanf_ld_def scan_long_def isspace_def isdigit_def)

text \<open>
  Claim C7, as amended. A SET command that names a known parameter and whose value token
  cannot be read as a number (\<open>sscanf\<close> does not return \<open>1\<close>) returns \<open>5\<close>, prints the
  two error lines and leaves the parameter table as it was. A token that can be read is
  stored, whatever its value, and the command returns \<open>0\<close>. Only the earlier sketch
  with String arguments takes the value \<open>0\<close> for an error: there a token that converts
  to \<open>0\<close>, or that holds no number, returns \<open>5\<close> and leaves \<open>trial_params\<close> as it was.
\<close>

theorem SET_conversion:
  assumes known: "find_idx param_abbrevs name 0 \<noteq> - 1"
  shows "(fst (sscanf_ld tok) \<noteq> 1 \<longrightarrow>
            fst (take_action ''SET'' name tok g) = 5 \<and>
            param_values (snd (take_action ''SET'' name tok g)) = param_values g \<and>
            serial (snd (take_action ''SET'' name tok g)) =
              serial g @ [M_ERR_SIC tok, M_ERR_cant_set_var]) \<and>
         (fst (sscanf_ld tok) = 1 \<longrightarrow>
            fst (take_action ''SET'' name tok g) = 0 \<and>
            param_values (snd (take_action ''SET'' name tok g)) =
              (param_values g)[nat (find_idx param_abbrevs name 0) := snd (sscanf_ld tok)]) \<and>
         ((ucast (String_toInt tok) :: c_int) = 0 \<longrightarrow>
            take_action_String ''SET'' ''ITI'' tok trial_params = (5, trial_params)) \<and>
         (scan_long tok = None \<longrightarrow>
            take_action_String ''SET'' ''ITI'' tok trial_params = (5, trial_params))"
  using known
  by (simp add: take_action_def safe_int_convert_def take_action_String_def
      safe_int_convert_String_def String_toInt_def Let_def)

theorem SET_conversion_witness:
  "find_idx param_abbrevs ''ITI'' 0 \<noteq> - 1 \<and>
   fst (sscanf_ld ''abc'') \<noteq> 1 \<and>
   fst (take_action ''SET'' ''ITI'' ''abc'' initial_globals) = 5 \<and>
   param_values (snd (take_action ''SET'' ''ITI'' ''abc'' initial_globals)) = param_values initial_globals \<and>
   fst (sscanf_ld ''250'') = 1 \<and>
   fst (take_action ''SET'' ''ITI'' ''250'' initial_globals) = 0 \<and>
   param_values (snd (take_action ''SET'' ''ITI'' ''250'' initial_globals)) ! tpidx_ITI = 250 \<and>
   (ucast (String_toInt ''0'') :: c_int) = 0 \<and>
   take_action_String ''SET'' ''ITI'' ''0'' \<lparr>inter_trial_interval = 3000\<rparr> =
     (5, \<lparr>inter_trial_interval = 3000\<rparr>) \<and>
   scan_long ''abc'' = None \<and>
   take_action_String ''SET'' ''ITI'' ''abc'' \<lparr>inter_trial_interval = 3000\<rparr> =
     (5, \<lparr>inter_trial_interval = 3000\<rparr>)"
proof -
  have k: "find_idx param_abbrevs ''ITI'' 0 \<noteq> - 1" "find_idx param_abbrevs ''ITI'' 0 = 7"
    by (simp_all add: param_abbrevs_def)
  have a: "sscanf_ld ''abc'' = (0, 0)" "scan_long ''abc'' = None"
    by (simp_all add: sscanf_ld_def scan_long_def isspace_def isdigit_def)
  have b: "sscanf_ld ''250'' = (1, 250)"
    by (simp add: sscanf_ld_def scan_long_def isspace_def isdigit_def)
  have c: "(ucast (String_toInt ''0'') :: c_int) = 0"
    by (simp add: String_toInt_def scan_long_def isspace_def isdigit_def)
  have l: "length (param_values initial_globals) = 11"
    by (simp add: initial_globals_def initial_param_values_def)
  from SET_conversion [OF k(1), of "''abc''" initial_globals "\<lparr>inter_trial_interval = 3000\<rparr>"]
       SET_conversion [OF k(1), of "''250''" initial_globals "\<lparr>inter_trial_interval = 3000\<rparr>"]
       SET_conversion [OF k(1), of "''0''" initial_globals "\<lparr>inter_trial_interval = 3000\<rparr>"]
       k a b c l
  show ?thesis by (simp add: tpidx_defs)
qed

text \<open>
  The claim as it was stated fails in MultiSens.ino: the token \<open>0\<close> is read as the
  number \<open>0\<close>, \<open>SET MRT 0\<close> returns \<open>0\<close> and changes MRT from \<open>1\<close> to \<open>0\<close>.
\<close>

theorem SET_zero_accepted_counterexample:
  "sscanf_ld ''0'' = (1, 0) \<and>
   fst (take_action ''SET'' ''MRT'' ''0'' initial_globals) = 0 \<and>
   param_values (snd (take_action ''SET'' ''MRT'' ''0'' initial_globals)) ! tpidx_MRT = 0 \<and>
   param_values initial_globals ! tpidx_MRT = 1"
  by (simp add: take_action_def param_abbrevs_def safe_int_convert_def sscanf_zero initial_globals_def
      initial_param_values_def tpidx_defs)

end
